theory Spec2Isabelle
  imports Main "HOL-Library.Extended_Nat"
begin

section \<open>Data model of \<open>src/index.tsx\<close>\<close>

text \<open>
  A DOM node (an \<open>EventTarget\<close>) is known to the hook only by identity; identities are
  natural numbers here.
\<close>

type_synonym node = nat

record File =
  name :: string
  bytes :: nat
  mime :: string

record FileError =
  code :: string
  message :: string

record FileRejection =
  fileOf :: File
  errors :: "FileError list"

text \<open>
  What a validator returns: \<open>null\<close>, one error object, or an array of error objects.
  In JavaScript only \<open>null\<close> is falsy; every object and every array, the empty array
  included, is truthy.
\<close>

datatype ValidatorResult = VNull | VSingle FileError | VArray "FileError list"

fun truthy :: "ValidatorResult \<Rightarrow> bool" where
  "truthy VNull = False"
| "truthy (VSingle e) = True"
| "truthy (VArray es) = True"

text \<open>\<open>Array.isArray(customErrors) ? customErrors : [customErrors]\<close>, for a truthy value.\<close>

fun asArray :: "ValidatorResult \<Rightarrow> FileError list" where
  "asArray VNull = []"
| "asArray (VSingle e) = [e]"
| "asArray (VArray es) = es"

text \<open>
  An error object as the handlers classify it: the answers of \<open>isAbort\<close> and
  \<open>isSecurityError\<close> (both live in \<open>./utils\<close>) and its text.
\<close>

datatype Err = Err (isAbort: bool) (isSecurityError: bool) (errText: string)

text \<open>
  A DOM event as the handlers read it. \<open>evtWithFiles\<close> is the answer of
  \<open>isEvtWithFiles(event)\<close>, \<open>propagationStopped\<close> the answer of
  \<open>isPropagationStopped(event)\<close> at the moment a deferred continuation asks,
  \<open>dtFiles\<close> the list \<open>event.dataTransfer.files\<close> (empty when there is none) and
  \<open>targetFiles\<close> the list \<open>event.target.files\<close> (empty when there is none).
\<close>

record Event =
  target :: node
  hasDataTransfer :: bool
  dtFiles :: "File list"
  targetFiles :: "File list"
  evtWithFiles :: bool
  propagationStopped :: bool
  cancelBubble :: bool
  targetIsEqualRoot :: bool
  key :: string
  keyCode :: nat

text \<open>
  The merged properties \<open>local\<close>. A callback property is recorded by whether the caller
  supplied it; its invocations are written to the effect log of the state.
\<close>

record DropzoneProps =
  accept :: "(string \<times> string list) list option"
  disabled :: bool
  getFilesFromEvent :: "Event \<Rightarrow> Err + File list"
  maxSize :: enat
  minSize :: nat
  multiple :: bool
  maxFiles :: int
  onDragEnter :: bool
  onDragLeave :: bool
  onDragOver :: bool
  onDrop :: bool
  onDropAccepted :: bool
  onDropRejected :: bool
  onFileDialogCancel :: bool
  onFileDialogOpen :: bool
  useFsAccessApi :: bool
  autoFocus :: bool
  preventDropOnDocument :: bool
  noClick :: bool
  noKeyboard :: bool
  noDrag :: bool
  noDragEventsBubbling :: bool
  onError :: bool
  validator :: "(File \<Rightarrow> ValidatorResult) option"

text \<open>
  The functions imported from \<open>./utils\<close> and the ambient browser capabilities. The module
  \<open>./utils\<close> is not part of the sources at hand, so its functions are parameters of the
  model.
\<close>

record Utils =
  acceptPropAsAcceptAttr :: "(string \<times> string list) list option \<Rightarrow> string option"
  fileAccepted :: "File \<Rightarrow> string option \<Rightarrow> bool \<times> FileError option"
  fileMatchSize :: "File \<Rightarrow> nat \<Rightarrow> enat \<Rightarrow> bool \<times> FileError option"
  allFilesAccepted :: "File list \<Rightarrow> string option \<Rightarrow> nat \<Rightarrow> enat \<Rightarrow> bool \<Rightarrow> int
                        \<Rightarrow> (File \<Rightarrow> ValidatorResult) option \<Rightarrow> bool"
  canUseFileSystemAccessAPI :: bool
  isSecureContext :: bool
  isIeOrEdge :: bool

text \<open>
  Modelled from the spec: the constant \<open>TOO_MANY_FILES_REJECTION\<close> of \<open>./utils\<close>, which is
  not among the sources. The specification names its code \<open>too-many-files\<close>; the tests
  expect the message \<open>Too many files\<close>.
\<close>

definition TOO_MANY_FILES_REJECTION :: FileError where
  "TOO_MANY_FILES_REJECTION = \<lparr>code = ''too-many-files'', message = ''Too many files''\<rparr>"

text \<open>
  Everything a handler does besides writing a signal or a variable of the instance.
  \<open>CallOnDropEvent\<close> is \<open>local.onDrop\<close> called with the event alone, as the composed
  root handler calls it; \<open>CallOverride\<close> is a function the caller passed to a prop getter,
  called with the event.
\<close>

datatype Effect =
    CallOnDrop "File list" "FileRejection list" Event
  | CallOnDropRejected "FileRejection list" Event
  | CallOnDropAccepted "File list" Event
  | CallOnDragEnter Event
  | CallOnDragOver Event
  | CallOnDragLeave Event
  | CallOnDropEvent Event
  | CallOverride string Event
  | CallOnFileDialogOpen
  | CallOnFileDialogCancel
  | CallOnError Err
  | ConsoleError Err
  | PreventDefault Event
  | StopPropagation Event
  | SetDropEffectCopy Event
  | ShowOpenFilePicker
  | InputClearValue
  | InputClick

text \<open>The callbacks handed to \<open>setTimeout\<close>, each with its delay in milliseconds.\<close>

datatype Task = CancelCheck | OpenFileDialogTask | ResetOpenCalled

text \<open>
  The signals and the mutable variables of one instance. \<open>rootRef\<close> holds the nodes
  the bound root element contains (itself included), \<open>inputRef\<close> the file list of the
  bound input element.
\<close>

record DropzoneState =
  isFocused :: bool
  isFileDialogActive :: bool
  isDragActive :: bool
  isDragAccept :: bool
  isDragReject :: bool
  acceptedFiles :: "File list"
  fileRejections :: "FileRejection list"
  rootRef :: "node list option"
  inputRef :: "File list option"
  openCalledInThisTick :: bool
  dragTargets :: "node list"
  fsAccessApiWorks :: bool
  timers :: "(nat \<times> Task) list"
  effects :: "Effect list"

definition emit :: "Effect list \<Rightarrow> DropzoneState \<Rightarrow> DropzoneState" where
  "emit es s = s\<lparr>effects := effects s @ es\<rparr>"

definition acceptAttr :: "Utils \<Rightarrow> DropzoneProps \<Rightarrow> string option" where
  "acceptAttr u p = acceptPropAsAcceptAttr u (accept p)"

section \<open>The filtering pipeline \<open>setFiles\<close>\<close>

text \<open>\<open>[acceptError, sizeError].filter(e => e !== null)\<close>\<close>

definition nonNull :: "FileError option list \<Rightarrow> FileError list" where
  "nonNull es = concat (map (\<lambda>e. case e of None \<Rightarrow> [] | Some x \<Rightarrow> [x]) es)"

text \<open>
  The body of \<open>files.forEach\<close>: one file is pushed either on \<open>newAcceptedFiles\<close> or,
  with its errors, on \<open>newFileRejections\<close>.
\<close>

definition evalFile ::
  "Utils \<Rightarrow> DropzoneProps \<Rightarrow> File \<Rightarrow> File list \<times> FileRejection list
     \<Rightarrow> File list \<times> FileRejection list" where
  "evalFile u p f acc =
     (let (accepted, acceptError) = fileAccepted u f (acceptAttr u p);
          (sizeMatch, sizeError) = fileMatchSize u f (minSize p) (maxSize p);
          customErrors = (case validator p of None \<Rightarrow> VNull | Some v \<Rightarrow> v f)
      in if accepted \<and> sizeMatch \<and> \<not> truthy customErrors
         then (fst acc @ [f], snd acc)
         else (let errors0 = nonNull [acceptError, sizeError];
                   errors1 = (if truthy customErrors then errors0 @ asArray customErrors
                              else errors0)
               in (fst acc, snd acc @ [\<lparr>fileOf = f, errors = errors1\<rparr>])))"

fun evalFiles ::
  "Utils \<Rightarrow> DropzoneProps \<Rightarrow> File list \<Rightarrow> File list \<times> FileRejection list
     \<Rightarrow> File list \<times> FileRejection list" where
  "evalFiles u p [] acc = acc"
| "evalFiles u p (f # fs) acc = evalFiles u p fs (evalFile u p f acc)"

text \<open>The multiplicity guard on the accepted files of the per-file step.\<close>

definition tooManyFiles :: "DropzoneProps \<Rightarrow> File list \<Rightarrow> bool" where
  "tooManyFiles p newAcceptedFiles =
     ((\<not> multiple p \<and> length newAcceptedFiles > 1) \<or>
      (multiple p \<and> maxFiles p \<ge> 1 \<and> int (length newAcceptedFiles) > maxFiles p))"

definition guardFiles ::
  "DropzoneProps \<Rightarrow> File list \<times> FileRejection list \<Rightarrow> File list \<times> FileRejection list" where
  "guardFiles p acc =
     (if tooManyFiles p (fst acc)
      then ([], snd acc @ map (\<lambda>f. \<lparr>fileOf = f, errors = [TOO_MANY_FILES_REJECTION]\<rparr>) (fst acc))
      else acc)"

definition setFiles ::
  "Utils \<Rightarrow> DropzoneProps \<Rightarrow> File list \<Rightarrow> Event option \<Rightarrow> DropzoneState \<Rightarrow> DropzoneState" where
  "setFiles u p files event s =
     (let (newAcceptedFiles, newFileRejections) = guardFiles p (evalFiles u p files ([], []));
          s1 = s\<lparr>acceptedFiles := newAcceptedFiles,
                 fileRejections := newFileRejections,
                 isDragReject := (length newFileRejections > 0)\<rparr>
      in case event of
           None \<Rightarrow> s1
         | Some ev \<Rightarrow>
             emit ((if onDrop p then [CallOnDrop newAcceptedFiles newFileRejections ev] else []) @
                   (if length newFileRejections > 0 \<and> onDropRejected p
                    then [CallOnDropRejected newFileRejections ev] else []) @
                   (if length newAcceptedFiles > 0 \<and> onDropAccepted p
                    then [CallOnDropAccepted newAcceptedFiles ev] else [])) s1)"


section \<open>Drag handlers\<close>

text \<open>The propagation-stop policy: \<open>stopPropagation(event)\<close> of the instance.\<close>

definition stopPropagation :: "DropzoneProps \<Rightarrow> Event \<Rightarrow> Effect list" where
  "stopPropagation p ev = (if noDragEventsBubbling p then [StopPropagation ev] else [])"

definition onErrCb :: "DropzoneProps \<Rightarrow> Err \<Rightarrow> Effect list" where
  "onErrCb p e = ConsoleError e # (if onError p then [CallOnError e] else [ConsoleError e])"

definition predictAccept :: "Utils \<Rightarrow> DropzoneProps \<Rightarrow> File list \<Rightarrow> bool" where
  "predictAccept u p files =
     allFilesAccepted u files (acceptAttr u p) (minSize p) (maxSize p) (multiple p)
       (maxFiles p) (validator p)"

text \<open>
  \<open>onDragEnterCb\<close> up to its return. The second component tells whether it left a
  promise behind, whose continuation is \<open>onDragEnterThen\<close>.
\<close>

definition onDragEnterCb ::
  "Utils \<Rightarrow> DropzoneProps \<Rightarrow> Event \<Rightarrow> DropzoneState \<Rightarrow> DropzoneState \<times> bool" where
  "onDragEnterCb u p ev s =
     (let s1 = (emit (PreventDefault ev # stopPropagation p ev) s)
                 \<lparr>dragTargets := dragTargets s @ [target ev]\<rparr>
      in if dtFiles ev \<noteq> []
         then (let accept = predictAccept u p (dtFiles ev)
               in (emit (if onDragEnter p then [CallOnDragEnter ev] else [])
                     (s1\<lparr>isDragActive := True, isDragAccept := accept,
                         isDragReject := (\<not> accept)\<rparr>), False))
         else (s1, evtWithFiles ev))"

definition onDragEnterThen ::
  "Utils \<Rightarrow> DropzoneProps \<Rightarrow> Event \<Rightarrow> DropzoneState \<Rightarrow> DropzoneState" where
  "onDragEnterThen u p ev s =
     (case getFilesFromEvent p ev of
        Inl e \<Rightarrow> emit (onErrCb p e) s
      | Inr files \<Rightarrow>
          if propagationStopped ev \<and> \<not> noDragEventsBubbling p then s
          else (let fileCount = length files;
                    dragAccept = (fileCount > 0 \<and> predictAccept u p files);
                    dragReject = (fileCount > 0 \<and> \<not> dragAccept)
                in emit (if onDragEnter p then [CallOnDragEnter ev] else [])
                     (s\<lparr>isDragAccept := dragAccept, isDragReject := dragReject,
                        isDragActive := True\<rparr>)))"

definition onDragOverCb :: "DropzoneProps \<Rightarrow> Event \<Rightarrow> DropzoneState \<Rightarrow> DropzoneState" where
  "onDragOverCb p ev s =
     emit (PreventDefault ev # stopPropagation p ev @
           (if evtWithFiles ev \<and> hasDataTransfer ev then [SetDropEffectCopy ev] else []) @
           (if evtWithFiles ev \<and> onDragOver p then [CallOnDragOver ev] else [])) s"

text \<open>\<open>rootRef && rootRef.contains(target)\<close>\<close>

definition rootContains :: "DropzoneState \<Rightarrow> node \<Rightarrow> bool" where
  "rootContains s t = (case rootRef s of None \<Rightarrow> False | Some nodes \<Rightarrow> t \<in> set nodes)"

definition onDragLeaveCb :: "DropzoneProps \<Rightarrow> Event \<Rightarrow> DropzoneState \<Rightarrow> DropzoneState" where
  "onDragLeaveCb p ev s =
     (if \<not> evtWithFiles ev then s
      else if target ev \<notin> set (dragTargets s) then s
      else (let s1 = emit (PreventDefault ev # stopPropagation p ev) s;
                targets0 = filter (rootContains s) (dragTargets s);
                targets = remove1 (target ev) targets0;
                s2 = s1\<lparr>dragTargets := targets\<rparr>
            in if length targets > 0 then s2
               else emit (if evtWithFiles ev \<and> onDragLeave p then [CallOnDragLeave ev] else [])
                      (s2\<lparr>isDragActive := False, isDragAccept := False,
                          isDragReject := False\<rparr>)))"

text \<open>
  \<open>onDropCb\<close> up to its return, again with the flag for a promise left behind, and
  the continuation \<open>onDropThen\<close> of that promise.
\<close>

definition onDropCb ::
  "Utils \<Rightarrow> DropzoneProps \<Rightarrow> Event \<Rightarrow> DropzoneState \<Rightarrow> DropzoneState \<times> bool" where
  "onDropCb u p ev s =
     (let s1 = (emit (PreventDefault ev # stopPropagation p ev) s)\<lparr>dragTargets := []\<rparr>
      in if \<not> hasDataTransfer ev \<and> targetFiles ev \<noteq> []
         then ((setFiles u p (targetFiles ev) (Some ev) s1)
                 \<lparr>isDragActive := False, isDragAccept := False, isDragReject := False\<rparr>, False)
         else (let s2 = (if evtWithFiles ev \<and> dtFiles ev \<noteq> []
                         then setFiles u p (dtFiles ev) (Some ev) s1 else s1)
               in (s2\<lparr>isDragActive := False, isDragAccept := False, isDragReject := False\<rparr>,
                   evtWithFiles ev)))"

definition onDropThen ::
  "Utils \<Rightarrow> DropzoneProps \<Rightarrow> Event \<Rightarrow> DropzoneState \<Rightarrow> DropzoneState" where
  "onDropThen u p ev s =
     (case getFilesFromEvent p ev of
        Inl e \<Rightarrow> emit (onErrCb p e) s
      | Inr files \<Rightarrow>
          if propagationStopped ev \<and> \<not> noDragEventsBubbling p then s
          else setFiles u p files (Some ev) s)"


definition onDocumentDrop :: "Event \<Rightarrow> DropzoneState \<Rightarrow> DropzoneState" where
  "onDocumentDrop ev s =
     (if rootContains s (target ev) then s
      else (emit [PreventDefault ev] s)\<lparr>dragTargets := []\<rparr>)"

section \<open>The file dialog\<close>

datatype PickerOutcome = Picked "File list" | Failed Err

definition openFileDialog :: "DropzoneProps \<Rightarrow> DropzoneState \<Rightarrow> DropzoneState" where
  "openFileDialog p s =
     (if fsAccessApiWorks s
      then emit ((if onFileDialogOpen p then [CallOnFileDialogOpen] else []) @
                 [ShowOpenFilePicker]) (s\<lparr>isFileDialogActive := True\<rparr>)
      else (case inputRef s of
              None \<Rightarrow> s
            | Some fs \<Rightarrow>
                emit ((if onFileDialogOpen p then [CallOnFileDialogOpen] else []) @
                      [InputClearValue, InputClick]) (s\<lparr>isFileDialogActive := True\<rparr>)))"

definition noInputError :: Err where
  "noInputError = Err False False
     ''Cannot open the file picker because the File System Access API is not supported and no <input> was provided.''"

text \<open>
  The continuation of the promise of \<open>showOpenFilePicker\<close>: the \<open>then\<close> branch for the
  files resolved, the \<open>catch\<close> branch for a failure.
\<close>

definition openFileDialogThen ::
  "Utils \<Rightarrow> DropzoneProps \<Rightarrow> PickerOutcome \<Rightarrow> DropzoneState \<Rightarrow> DropzoneState" where
  "openFileDialogThen u p outcome s =
     (case outcome of
        Picked files \<Rightarrow> (setFiles u p files None s)\<lparr>isFileDialogActive := False\<rparr>
      | Failed e \<Rightarrow>
          if isAbort e
          then (emit (if onFileDialogCancel p then [CallOnFileDialogCancel] else []) s)
                 \<lparr>isFileDialogActive := False\<rparr>
          else if isSecurityError e
          then (let s1 = s\<lparr>fsAccessApiWorks := False\<rparr>
                in case inputRef s1 of
                     Some fs \<Rightarrow> emit [InputClearValue, InputClick] s1
                   | None \<Rightarrow> emit (onErrCb p noInputError) s1)
          else emit (onErrCb p e) s)"

definition onWindowFocus :: "DropzoneState \<Rightarrow> DropzoneState" where
  "onWindowFocus s =
     (if \<not> fsAccessApiWorks s \<and> isFileDialogActive s
      then s\<lparr>timers := timers s @ [(300, CancelCheck)]\<rparr>
      else s)"

text \<open>The callback \<open>onWindowFocus\<close> hands to \<open>setTimeout\<close>.\<close>

definition cancelCheck :: "DropzoneProps \<Rightarrow> DropzoneState \<Rightarrow> DropzoneState" where
  "cancelCheck p s =
     (case inputRef s of
        None \<Rightarrow> s
      | Some files \<Rightarrow>
          if files = []
          then emit (if onFileDialogCancel p then [CallOnFileDialogCancel] else [])
                 (s\<lparr>isFileDialogActive := False\<rparr>)
          else s)"

section \<open>Keyboard, focus and click handlers\<close>

definition onKeyDownCb :: "DropzoneProps \<Rightarrow> Event \<Rightarrow> DropzoneState \<Rightarrow> DropzoneState" where
  "onKeyDownCb p ev s =
     (if cancelBubble ev then s
      else if rootRef s = None \<or> \<not> targetIsEqualRoot ev then s
      else if key ev = '' '' \<or> key ev = ''Enter'' \<or> keyCode ev = 32 \<or> keyCode ev = 13
      then openFileDialog p (emit [PreventDefault ev] s)
      else s)"

definition onFocusCb :: "Event \<Rightarrow> DropzoneState \<Rightarrow> DropzoneState" where
  "onFocusCb ev s = (if cancelBubble ev then s else s\<lparr>isFocused := True\<rparr>)"

definition onBlurCb :: "Event \<Rightarrow> DropzoneState \<Rightarrow> DropzoneState" where
  "onBlurCb ev s = (if cancelBubble ev then s else s\<lparr>isFocused := False\<rparr>)"

definition onClickCb ::
  "Utils \<Rightarrow> DropzoneProps \<Rightarrow> Event \<Rightarrow> DropzoneState \<Rightarrow> DropzoneState" where
  "onClickCb u p ev s =
     (if cancelBubble ev then s
      else if noClick p \<or> openCalledInThisTick s then s
      else if isIeOrEdge u
      then (case inputRef s of None \<Rightarrow> s | Some fs \<Rightarrow> emit [InputClick] s)
      else s\<lparr>timers := timers s @ [(0, OpenFileDialogTask)]\<rparr>)"

text \<open>The imperative \<open>open()\<close> of the result object.\<close>

definition openDialog :: "DropzoneProps \<Rightarrow> DropzoneState \<Rightarrow> DropzoneState" where
  "openDialog p s =
     (if \<not> disabled p
      then (let s1 = openFileDialog p (s\<lparr>openCalledInThisTick := True\<rparr>)
            in s1\<lparr>timers := timers s1 @ [(0, ResetOpenCalled)]\<rparr>)
      else s)"

definition runTask :: "DropzoneProps \<Rightarrow> Task \<Rightarrow> DropzoneState \<Rightarrow> DropzoneState" where
  "runTask p t s =
     (case t of
        CancelCheck \<Rightarrow> cancelCheck p s
      | OpenFileDialogTask \<Rightarrow> openFileDialog p s
      | ResetOpenCalled \<Rightarrow> s\<lparr>openCalledInThisTick := False\<rparr>)"

section \<open>The instance as a transition system\<close>

text \<open>
  Everything that can happen to an instance: one of its internal callbacks called with a
  DOM event, a promise or a timer running its callback, the framework binding an element,
  the browser changing the file list of the bound input. The continuations of the
  promises are actions of their own, so a run may place them anywhere after the handler.
  In \<open>step\<close> a DOM event goes to the internal callback directly, whatever the prop
  bundles attach: this allows every call the bundles can make and more. The function
  \<open>dispatch\<close> further down sends the events through the handlers of the root bundle.
\<close>

datatype Action =
    DragEnter Event
  | DragEnterThen Event
  | DragOver Event
  | DragLeave Event
  | Drop Event
  | DropThen Event
  | DocumentDrop Event
  | KeyDown Event
  | Focus Event
  | Blur Event
  | Click Event
  | Open
  | PickerSettles PickerOutcome
  | WindowFocus
  | TimerFires nat
  | BindRoot "node list"
  | BindInput "File list"

definition step :: "Utils \<Rightarrow> DropzoneProps \<Rightarrow> Action \<Rightarrow> DropzoneState \<Rightarrow> DropzoneState" where
  "step u p a s =
     (case a of
        DragEnter ev \<Rightarrow> fst (onDragEnterCb u p ev s)
      | DragEnterThen ev \<Rightarrow> onDragEnterThen u p ev s
      | DragOver ev \<Rightarrow> onDragOverCb p ev s
      | DragLeave ev \<Rightarrow> onDragLeaveCb p ev s
      | Drop ev \<Rightarrow> fst (onDropCb u p ev s)
      | DropThen ev \<Rightarrow> onDropThen u p ev s
      | DocumentDrop ev \<Rightarrow> onDocumentDrop ev s
      | KeyDown ev \<Rightarrow> onKeyDownCb p ev s
      | Focus ev \<Rightarrow> onFocusCb ev s
      | Blur ev \<Rightarrow> onBlurCb ev s
      | Click ev \<Rightarrow> onClickCb u p ev s
      | Open \<Rightarrow> openDialog p s
      | PickerSettles outcome \<Rightarrow> openFileDialogThen u p outcome s
      | WindowFocus \<Rightarrow> onWindowFocus s
      | TimerFires k \<Rightarrow>
          (if k < length (timers s)
           then runTask p (snd (timers s ! k))
                  (s\<lparr>timers := take k (timers s) @ drop (Suc k) (timers s)\<rparr>)
           else s)
      | BindRoot nodes \<Rightarrow> s\<lparr>rootRef := Some nodes\<rparr>
      | BindInput fs \<Rightarrow> s\<lparr>inputRef := Some fs\<rparr>)"

text \<open>
  A run: the configuration is reactive, so every action comes with the properties in
  force when it happens.
\<close>

fun run :: "Utils \<Rightarrow> (DropzoneProps \<times> Action) list \<Rightarrow> DropzoneState \<Rightarrow> DropzoneState" where
  "run u [] s = s"
| "run u ((p, a) # as) s = run u as (step u p a s)"

text \<open>The state \<open>useDropzone\<close> starts from.\<close>

definition initialState :: "Utils \<Rightarrow> DropzoneProps \<Rightarrow> DropzoneState" where
  "initialState u p =
     \<lparr>isFocused = False, isFileDialogActive = False, isDragActive = False,
      isDragAccept = False, isDragReject = False, acceptedFiles = [], fileRejections = [],
      rootRef = None, inputRef = None, openCalledInThisTick = False, dragTargets = [],
      fsAccessApiWorks = (isSecureContext u \<and> useFsAccessApi p \<and> canUseFileSystemAccessAPI u),
      timers = [], effects = []\<rparr>"


section \<open>The prop bundles\<close>

text \<open>
  A handler value: one of the callbacks of the instance (\<open>Internal\<close>), the callback
  property \<open>local.onX\<close> of the configuration (\<open>Supplied\<close>, by its name), a function the
  caller passed to a prop getter (\<open>Override\<close>, by a name of the caller's), the function
  \<open>composeEventHandlers\<close> returns for its arguments, or the wrapper of
  \<open>composeDragHandler\<close> that calls \<open>event.stopPropagation()\<close> before its argument.
  \<open>None\<close> stands for \<open>undefined\<close>.
\<close>

datatype Cb =
    OnKeyDownCb | OnFocusCb | OnBlurCb | OnClickCb
  | OnDragEnterCb | OnDragOverCb | OnDragLeaveCb | OnDropCb
  | OnInputElementClick

datatype Handler =
    Internal Cb
  | Supplied string
  | Override string
  | ComposeEventHandlers "Handler option" "Handler option"
  | StopPropagationFirst Handler

definition composeHandler :: "DropzoneProps \<Rightarrow> Handler \<Rightarrow> Handler option" where
  "composeHandler p fn = (if disabled p then None else Some fn)"

definition composeKeyboardHandler :: "DropzoneProps \<Rightarrow> Handler \<Rightarrow> Handler option" where
  "composeKeyboardHandler p fn = (if noKeyboard p then None else composeHandler p fn)"

text \<open>
  The argument \<open>fn\<close> is always a function here (a result of \<open>composeEventHandlers\<close>),
  so the test \<open>noDragEventsBubbling && fn\<close> is the test of the flag.
\<close>

definition composeDragHandler :: "DropzoneProps \<Rightarrow> Handler \<Rightarrow> Handler option" where
  "composeDragHandler p fn =
     (if noDrag p then None
      else if noDragEventsBubbling p then Some (StopPropagationFirst fn)
      else composeHandler p fn)"

text \<open>The callback property \<open>local.onX\<close> as a handler value.\<close>

definition localCallback :: "bool \<Rightarrow> string \<Rightarrow> Handler option" where
  "localCallback supplied nm = (if supplied then Some (Supplied nm) else None)"

text \<open>\<open>value || fallback\<close> on an optional string: \<open>undefined\<close> and the empty string are falsy.\<close>

definition orElse :: "string option \<Rightarrow> string \<Rightarrow> string" where
  "orElse v d = (case v of None \<Rightarrow> d | Some x \<Rightarrow> if x = [] then d else x)"

text \<open>
  The bundles, with the keys the hook computes. As the argument of a prop getter a record
  holds what the caller passed; \<open>tabIndex\<close> (and, for the input, \<open>accept\<close>, \<open>multiple\<close>
  and \<open>tabIndex\<close>) are then keys of \<open>restProps\<close>, which is spread last and so wins over
  the computed value.
\<close>

record DropzoneRootProps =
  refKey :: "string option"
  role :: "string option"
  rootOnKeyDown :: "Handler option"
  rootOnFocus :: "Handler option"
  rootOnBlur :: "Handler option"
  rootOnClick :: "Handler option"
  rootOnDragEnter :: "Handler option"
  rootOnDragOver :: "Handler option"
  rootOnDragLeave :: "Handler option"
  rootOnDrop :: "Handler option"
  tabIndex :: "int option"

record DropzoneInputProps =
  inputRefKey :: "string option"
  inputOnChange :: "Handler option"
  inputOnClick :: "Handler option"
  inputAccept :: "string option"
  inputMultiple :: "bool option"
  inputTabIndex :: "int option"

definition getRootProps :: "DropzoneProps \<Rightarrow> DropzoneRootProps \<Rightarrow> DropzoneRootProps" where
  "getRootProps p props =
     \<lparr>refKey = Some (orElse (refKey props) ''ref''),
      role = Some (orElse (role props) ''presentation''),
      rootOnKeyDown = composeKeyboardHandler p
        (ComposeEventHandlers (rootOnKeyDown props) (Some (Internal OnKeyDownCb))),
      rootOnFocus = composeKeyboardHandler p
        (ComposeEventHandlers (rootOnFocus props) (Some (Internal OnFocusCb))),
      rootOnBlur = composeKeyboardHandler p
        (ComposeEventHandlers (rootOnBlur props) (Some (Internal OnBlurCb))),
      rootOnClick = composeHandler p
        (ComposeEventHandlers (rootOnClick props) (Some (Internal OnClickCb))),
      rootOnDragEnter = composeDragHandler p
        (ComposeEventHandlers (localCallback (onDragEnter p) ''onDragEnter'')
           (Some (ComposeEventHandlers (rootOnDragEnter props) (Some (Internal OnDragEnterCb))))),
      rootOnDragOver = composeDragHandler p
        (ComposeEventHandlers (localCallback (onDragOver p) ''onDragOver'')
           (Some (ComposeEventHandlers (rootOnDragOver props) (Some (Internal OnDragOverCb))))),
      rootOnDragLeave = composeDragHandler p
        (ComposeEventHandlers (localCallback (onDragLeave p) ''onDragLeave'')
           (Some (ComposeEventHandlers (rootOnDragLeave props) (Some (Internal OnDragLeaveCb))))),
      rootOnDrop = composeDragHandler p
        (ComposeEventHandlers (localCallback (onDrop p) ''onDrop'')
           (Some (ComposeEventHandlers (rootOnDrop props) (Some (Internal OnDropCb))))),
      tabIndex = (case tabIndex props of
                    Some t \<Rightarrow> Some t
                  | None \<Rightarrow> if \<not> disabled p \<and> \<not> noKeyboard p then Some 0 else None)\<rparr>"

definition getInputProps ::
  "Utils \<Rightarrow> DropzoneProps \<Rightarrow> DropzoneInputProps \<Rightarrow> DropzoneInputProps" where
  "getInputProps u p props =
     \<lparr>inputRefKey = Some (orElse (inputRefKey props) ''ref''),
      inputOnChange = composeHandler p
        (ComposeEventHandlers (inputOnChange props) (Some (Internal OnDropCb))),
      inputOnClick = composeHandler p
        (ComposeEventHandlers (inputOnClick props) (Some (Internal OnInputElementClick))),
      inputAccept = (case inputAccept props of Some a \<Rightarrow> Some a | None \<Rightarrow> acceptAttr u p),
      inputMultiple = (case inputMultiple props of Some m \<Rightarrow> Some m | None \<Rightarrow> Some (multiple p)),
      inputTabIndex = (case inputTabIndex props of Some t \<Rightarrow> Some t | None \<Rightarrow> Some (- 1))\<rparr>"

section \<open>Events sent through the root bundle\<close>

text \<open>What an internal callback does when it is called with an event, up to its return.\<close>

definition runCb ::
  "Utils \<Rightarrow> DropzoneProps \<Rightarrow> Cb \<Rightarrow> Event \<Rightarrow> DropzoneState \<Rightarrow> DropzoneState" where
  "runCb u p cb ev s =
     (case cb of
        OnKeyDownCb \<Rightarrow> onKeyDownCb p ev s
      | OnFocusCb \<Rightarrow> onFocusCb ev s
      | OnBlurCb \<Rightarrow> onBlurCb ev s
      | OnClickCb \<Rightarrow> onClickCb u p ev s
      | OnDragEnterCb \<Rightarrow> fst (onDragEnterCb u p ev s)
      | OnDragOverCb \<Rightarrow> onDragOverCb p ev s
      | OnDragLeaveCb \<Rightarrow> onDragLeaveCb p ev s
      | OnDropCb \<Rightarrow> fst (onDropCb u p ev s)
      | OnInputElementClick \<Rightarrow> emit [StopPropagation ev] s)"

text \<open>The callback property \<open>local.onX\<close> called with the event alone.\<close>

definition callLocal :: "string \<Rightarrow> Event \<Rightarrow> Effect" where
  "callLocal nm ev =
     (if nm = ''onDragEnter'' then CallOnDragEnter ev
      else if nm = ''onDragOver'' then CallOnDragOver ev
      else if nm = ''onDragLeave'' then CallOnDragLeave ev
      else if nm = ''onDrop'' then CallOnDropEvent ev
      else CallOverride nm ev)"

text \<open>
  Modelled from the spec: the function \<open>composeEventHandlers\<close> of \<open>./utils\<close>, which is not
  among the sources. The specification composes each internal handler with the caller's
  handler for the same event, the caller's handler running first; the tests expect the
  caller's \<open>onDragLeave\<close> to be called for every drag-leave event on the root, also for
  one whose target no drag-enter named and also with \<open>noDragEventsBubbling\<close> set. The
  model calls the functions it is given, in the order given, and skips an \<open>undefined\<close>
  one. It is given here for two functions on the state.
\<close>

definition composeEventHandlers ::
  "(DropzoneState \<Rightarrow> DropzoneState) option \<Rightarrow> (DropzoneState \<Rightarrow> DropzoneState) option
     \<Rightarrow> DropzoneState \<Rightarrow> DropzoneState" where
  "composeEventHandlers f g s =
     (let s1 = (case f of None \<Rightarrow> s | Some h \<Rightarrow> h s)
      in case g of None \<Rightarrow> s1 | Some h \<Rightarrow> h s1)"

text \<open>Calling a handler value with an event.\<close>

fun runHandler ::
  "Utils \<Rightarrow> DropzoneProps \<Rightarrow> Handler \<Rightarrow> Event \<Rightarrow> DropzoneState \<Rightarrow> DropzoneState" where
  "runHandler u p (Internal cb) ev s = runCb u p cb ev s"
| "runHandler u p (Supplied nm) ev s = emit [callLocal nm ev] s"
| "runHandler u p (Override nm) ev s = emit [CallOverride nm ev] s"
| "runHandler u p (ComposeEventHandlers a b) ev s =
     composeEventHandlers (map_option (\<lambda>h. runHandler u p h ev) a)
       (map_option (\<lambda>h. runHandler u p h ev) b) s"
| "runHandler u p (StopPropagationFirst fn) ev s =
     runHandler u p fn ev (emit [StopPropagation ev] s)"

text \<open>An event reaching a slot of a bundle: with no handler attached nothing runs.\<close>

definition dispatchTo ::
  "Utils \<Rightarrow> DropzoneProps \<Rightarrow> Handler option \<Rightarrow> Event \<Rightarrow> DropzoneState \<Rightarrow> DropzoneState" where
  "dispatchTo u p h ev s = (case h of None \<Rightarrow> s | Some fn \<Rightarrow> runHandler u p fn ev s)"

text \<open>
  The transition of an instance whose root element carries the bundle
  \<open>getRootProps(props)\<close>: a DOM event on the root runs the handler the bundle holds for
  it, every other action is as in \<open>step\<close>.
\<close>

definition dispatch ::
  "Utils \<Rightarrow> DropzoneProps \<Rightarrow> DropzoneRootProps \<Rightarrow> Action \<Rightarrow> DropzoneState \<Rightarrow> DropzoneState" where
  "dispatch u p props a s =
     (case a of
        DragEnter ev \<Rightarrow> dispatchTo u p (rootOnDragEnter (getRootProps p props)) ev s
      | DragOver ev \<Rightarrow> dispatchTo u p (rootOnDragOver (getRootProps p props)) ev s
      | DragLeave ev \<Rightarrow> dispatchTo u p (rootOnDragLeave (getRootProps p props)) ev s
      | Drop ev \<Rightarrow> dispatchTo u p (rootOnDrop (getRootProps p props)) ev s
      | KeyDown ev \<Rightarrow> dispatchTo u p (rootOnKeyDown (getRootProps p props)) ev s
      | Focus ev \<Rightarrow> dispatchTo u p (rootOnFocus (getRootProps p props)) ev s
      | Blur ev \<Rightarrow> dispatchTo u p (rootOnBlur (getRootProps p props)) ev s
      | Click ev \<Rightarrow> dispatchTo u p (rootOnClick (getRootProps p props)) ev s
      | _ \<Rightarrow> step u p a s)"

text \<open>
  A value a caller passes for a handler key of a prop getter: nothing, or a function of
  the caller's own.
\<close>

fun plainOverride :: "Handler option \<Rightarrow> bool" where
  "plainOverride None = True"
| "plainOverride (Some (Override nm)) = True"
| "plainOverride (Some h) = False"

text \<open>
  What the attached drag-leave handler does before it reaches \<open>onDragLeaveCb\<close>: the
  wrapper's \<open>stopPropagation\<close>, the caller's \<open>onDragLeave\<close>, the caller's override.
\<close>

definition leavePrelude :: "DropzoneProps \<Rightarrow> DropzoneRootProps \<Rightarrow> Event \<Rightarrow> Effect list" where
  "leavePrelude p props ev =
     (if noDragEventsBubbling p then [StopPropagation ev] else []) @
     (if onDragLeave p then [CallOnDragLeave ev] else []) @
     (case rootOnDragLeave props of Some (Override nm) \<Rightarrow> [CallOverride nm ev] | _ \<Rightarrow> [])"

text \<open>
  The actions that may follow the drag-enters on a node \<open>x\<close>: a file-carrying drag-leave
  on \<open>x\<close>, or the continuation of the promise some drag-enter left behind.
\<close>

fun leaveOrSettle :: "node \<Rightarrow> Action \<Rightarrow> bool" where
  "leaveOrSettle x (DragLeave ev) = (target ev = x \<and> evtWithFiles ev)"
| "leaveOrSettle x (DragEnterThen ev) = True"
| "leaveOrSettle x a = False"

fun isDragLeave :: "Action \<Rightarrow> bool" where
  "isDragLeave (DragLeave ev) = True"
| "isDragLeave a = False"

text \<open>How many drag-leave events a list of actions holds.\<close>

definition leavesIn :: "Action list \<Rightarrow> nat" where
  "leavesIn as = length (filter isDragLeave as)"

section \<open>The result object\<close>

text \<open>
  The object \<open>useDropzone\<close> returns. A field that holds an accessor reads the state
  current at the call; a field that holds a plain value keeps the value it was given when
  the object was built.
\<close>

record DropzoneHookResult =
  resIsFocused :: "DropzoneProps \<Rightarrow> DropzoneState \<Rightarrow> bool"
  resIsFileDialogActive :: bool
  resIsDragActive :: "DropzoneState \<Rightarrow> bool"
  resIsDragAccept :: "DropzoneState \<Rightarrow> bool"
  resIsDragReject :: "DropzoneState \<Rightarrow> bool"
  resAcceptedFiles :: "DropzoneState \<Rightarrow> File list"
  resFileRejections :: "DropzoneState \<Rightarrow> FileRejection list"
  resRootRef :: "node list option"
  resInputRef :: "File list option"
  resOpen :: "DropzoneProps \<Rightarrow> DropzoneState \<Rightarrow> DropzoneState"

definition useDropzone :: "Utils \<Rightarrow> DropzoneProps \<Rightarrow> DropzoneState \<times> DropzoneHookResult" where
  "useDropzone u p =
     (let s0 = initialState u p
      in (s0,
          \<lparr>resIsFocused = (\<lambda>p s. isFocused s \<and> \<not> disabled p),
           resIsFileDialogActive = isFileDialogActive s0,
           resIsDragActive = isDragActive,
           resIsDragAccept = isDragAccept,
           resIsDragReject = isDragReject,
           resAcceptedFiles = acceptedFiles,
           resFileRejections = fileRejections,
           resRootRef = rootRef s0,
           resInputRef = inputRef s0,
           resOpen = openDialog\<rparr>))"

section \<open>Counting callback invocations\<close>

fun isLeaveCall :: "Effect \<Rightarrow> bool" where
  "isLeaveCall (CallOnDragLeave ev) = True"
| "isLeaveCall e = False"

text \<open>How often the \<open>onDragLeave\<close> callback has been invoked so far.\<close>

definition leaveCalls :: "DropzoneState \<Rightarrow> nat" where
  "leaveCalls s = length (filter isLeaveCall (effects s))"

text \<open>The targets of the drag-enter events of a run.\<close>

fun enteredTargets :: "(DropzoneProps \<times> Action) list \<Rightarrow> node list" where
  "enteredTargets [] = []"
| "enteredTargets ((q, DragEnter ev) # as) = target ev # enteredTargets as"
| "enteredTargets ((q, a) # as) = enteredTargets as"

text \<open>
  How often along a run the modern-picker flag goes from true to false.
\<close>

fun downgrades :: "Utils \<Rightarrow> (DropzoneProps \<times> Action) list \<Rightarrow> DropzoneState \<Rightarrow> nat" where
  "downgrades u [] s = 0"
| "downgrades u ((p, a) # as) s =
     (if fsAccessApiWorks s \<and> \<not> fsAccessApiWorks (step u p a s) then 1 else 0) +
     downgrades u as (step u p a s)"

text \<open>Whether a run holds a focus event that reaches \<open>setIsFocused(true)\<close>.\<close>

fun focusSeen :: "(DropzoneProps \<times> Action) list \<Rightarrow> bool" where
  "focusSeen [] = False"
| "focusSeen ((q, Focus ev) # as) = (\<not> cancelBubble ev \<or> focusSeen as)"
| "focusSeen ((q, a) # as) = focusSeen as"

section \<open>Example values\<close>

definition exUtils :: Utils where
  "exUtils = \<lparr>acceptPropAsAcceptAttr = (\<lambda>a. None),
              fileAccepted = (\<lambda>f a. (True, None)),
              fileMatchSize = (\<lambda>f lo hi. (True, None)),
              allFilesAccepted = (\<lambda>fs a lo hi m n v. True),
              canUseFileSystemAccessAPI = True,
              isSecureContext = True,
              isIeOrEdge = False\<rparr>"

definition exFile1 :: File where
  "exFile1 = \<lparr>name = ''cats.gif'', bytes = 1234, mime = ''image/gif''\<rparr>"

definition exFile2 :: File where
  "exFile2 = \<lparr>name = ''dogs.gif'', bytes = 2345, mime = ''image/gif''\<rparr>"

text \<open>The \<open>defaultProps\<close> of the module, with every callback supplied.\<close>

definition defaultProps :: DropzoneProps where
  "defaultProps = \<lparr>accept = None, disabled = False,
       getFilesFromEvent = (\<lambda>ev. Inr (dtFiles ev)),
       maxSize = \<infinity>, minSize = 0, multiple = True, maxFiles = 0,
       onDragEnter = True, onDragLeave = True, onDragOver = True, onDrop = True,
       onDropAccepted = True, onDropRejected = True, onFileDialogCancel = True,
       onFileDialogOpen = True, useFsAccessApi = False, autoFocus = False,
       preventDropOnDocument = True, noClick = False, noKeyboard = False, noDrag = False,
       noDragEventsBubbling = False, onError = True, validator = None\<rparr>"

text \<open>A drag event over node 1 that announces files without exposing them.\<close>

definition exEvent :: Event where
  "exEvent = \<lparr>target = 1, hasDataTransfer = True, dtFiles = [], targetFiles = [],
               evtWithFiles = True, propagationStopped = False, cancelBubble = False,
               targetIsEqualRoot = True, key = ''Enter'', keyCode = 13\<rparr>"

text \<open>A drag-leave over node 7, which no drag-enter names.\<close>

definition exStrayLeave :: Event where
  "exStrayLeave = exEvent\<lparr>target := 7\<rparr>"

definition noOverrides :: DropzoneRootProps where
  "noOverrides = \<lparr>refKey = None, role = None, rootOnKeyDown = None, rootOnFocus = None,
       rootOnBlur = None, rootOnClick = None, rootOnDragEnter = None, rootOnDragOver = None,
       rootOnDragLeave = None, rootOnDrop = None, tabIndex = None\<rparr>"


text \<open>The initial state with a root element bound that contains the nodes 0 and 1.\<close>

definition exBoundState :: DropzoneState where
  "exBoundState = (initialState exUtils defaultProps)\<lparr>rootRef := Some [0, 1]\<rparr>"


text \<open>A failure of the modern picker that \<open>isSecurityError\<close> recognises.\<close>

definition exSecurityError :: Err where
  "exSecurityError = Err False True ''SecurityError''"

text \<open>
  The legacy dialog is opened on a bound, empty input; the pending reset of the
  re-entrancy flag runs; the window regains focus twice before the first 300ms check
  runs, and then the first check runs.
\<close>

definition exCancelRun :: "(DropzoneProps \<times> Action) list" where
  "exCancelRun = [(defaultProps, BindInput []), (defaultProps, Open),
                  (defaultProps, TimerFires 0), (defaultProps, WindowFocus),
                  (defaultProps, WindowFocus), (defaultProps, TimerFires 0)]"

section \<open>Properties of the filtering pipeline\<close>

lemma setFiles_fields:
  "acceptedFiles (setFiles u p files event s) = fst (guardFiles p (evalFiles u p files ([], [])))"
  "fileRejections (setFiles u p files event s) = snd (guardFiles p (evalFiles u p files ([], [])))"
  by (simp_all add: setFiles_def emit_def Let_def split: prod.splits option.splits)

lemma setFiles_effects:
  "effects (setFiles u p files None s) = effects s"
  "effects (setFiles u p files (Some ev) s) =
     effects s @
     (if onDrop p
      then [CallOnDrop (fst (guardFiles p (evalFiles u p files ([], []))))
              (snd (guardFiles p (evalFiles u p files ([], [])))) ev] else []) @
     (if snd (guardFiles p (evalFiles u p files ([], []))) \<noteq> [] \<and> onDropRejected p
      then [CallOnDropRejected (snd (guardFiles p (evalFiles u p files ([], [])))) ev] else []) @
     (if fst (guardFiles p (evalFiles u p files ([], []))) \<noteq> [] \<and> onDropAccepted p
      then [CallOnDropAccepted (fst (guardFiles p (evalFiles u p files ([], [])))) ev] else [])"
  by (simp_all add: setFiles_def emit_def Let_def split: prod.splits)

text \<open>
  C1. Let the per-file step leave \<open>acc0\<close> accepted and \<open>rej0\<close> rejected. If \<open>multiple\<close>
  is false and \<open>acc0\<close> has more than one file, or \<open>multiple\<close> is true,
  \<open>maxFiles \<ge> 1\<close> and \<open>acc0\<close> has more than \<open>maxFiles\<close> files, then \<open>setFiles\<close> leaves no
  accepted file and the rejections are \<open>rej0\<close>, unchanged, followed by one rejection for
  each file of \<open>acc0\<close> whose only error is \<open>TOO_MANY_FILES_REJECTION\<close>, of code
  \<open>too-many-files\<close>. In every case at most one file is accepted when \<open>multiple\<close> is
  false, and at most \<open>maxFiles\<close> when \<open>multiple\<close> is true and \<open>maxFiles \<ge> 1\<close>.
\<close>

theorem setFiles_multiplicity_guard:
  assumes "evalFiles u p files ([], []) = (acc0, rej0)"
    and "s' = setFiles u p files event s"
  shows "((\<not> multiple p \<and> length acc0 > 1) \<or>
          (multiple p \<and> maxFiles p \<ge> 1 \<and> int (length acc0) > maxFiles p)
          \<longrightarrow> acceptedFiles s' = [] \<and>
              fileRejections s' =
                rej0 @ map (\<lambda>f. \<lparr>fileOf = f, errors = [TOO_MANY_FILES_REJECTION]\<rparr>) acc0 \<and>
              code TOO_MANY_FILES_REJECTION = ''too-many-files'') \<and>
         (\<not> multiple p \<longrightarrow> length (acceptedFiles s') \<le> 1) \<and>
         (multiple p \<and> maxFiles p \<ge> 1 \<longrightarrow> int (length (acceptedFiles s')) \<le> maxFiles p)"
  using assms
  by (auto simp add: setFiles_fields guardFiles_def tooManyFiles_def TOO_MANY_FILES_REJECTION_def)

theorem setFiles_multiplicity_guard_witness:
  "acceptedFiles (setFiles exUtils (defaultProps\<lparr>multiple := False\<rparr>) [exFile1, exFile2] None
       (initialState exUtils defaultProps)) = [] \<and>
   fileRejections (setFiles exUtils (defaultProps\<lparr>multiple := False\<rparr>) [exFile1, exFile2] None
       (initialState exUtils defaultProps)) =
     [\<lparr>fileOf = exFile1, errors = [TOO_MANY_FILES_REJECTION]\<rparr>,
      \<lparr>fileOf = exFile2, errors = [TOO_MANY_FILES_REJECTION]\<rparr>] \<and>
   acceptedFiles (setFiles exUtils (defaultProps\<lparr>maxFiles := 1\<rparr>) [exFile1, exFile2] None
       (initialState exUtils defaultProps)) = []"
proof -
  have e1: "evalFiles exUtils (defaultProps\<lparr>multiple := False\<rparr>) [exFile1, exFile2] ([], [])
              = ([exFile1, exFile2], [])"
    by (simp add: evalFile_def exUtils_def defaultProps_def)
  have e2: "evalFiles exUtils (defaultProps\<lparr>maxFiles := 1\<rparr>) [exFile1, exFile2] ([], [])
              = ([exFile1, exFile2], [])"
    by (simp add: evalFile_def exUtils_def defaultProps_def)
  show ?thesis
    using setFiles_multiplicity_guard [OF e1 refl, of None "initialState exUtils defaultProps"]
          setFiles_multiplicity_guard [OF e2 refl, of None "initialState exUtils defaultProps"]
    by (simp add: defaultProps_def)
qed

text \<open>
  What does hold of the errors of a rejection: they are not empty as long as the
  validator never answers with the empty array and the two checks of \<open>./utils\<close> return
  an error whenever they return \<open>false\<close>.
\<close>

lemma evalFile_errors_nonempty:
  assumes "\<forall>r \<in> set (snd acc). errors r \<noteq> []"
    and "\<forall>a. \<not> fst (fileAccepted u f a) \<longrightarrow> snd (fileAccepted u f a) \<noteq> None"
    and "\<forall>lo hi. \<not> fst (fileMatchSize u f lo hi) \<longrightarrow> snd (fileMatchSize u f lo hi) \<noteq> None"
    and "\<forall>v. validator p = Some v \<longrightarrow> v f \<noteq> VArray []"
  shows "\<forall>r \<in> set (snd (evalFile u p f acc)). errors r \<noteq> []"
proof -
  obtain a ae where fa: "fileAccepted u f (acceptAttr u p) = (a, ae)"
    by (cases "fileAccepted u f (acceptAttr u p)")
  obtain m me where fm: "fileMatchSize u f (minSize p) (maxSize p) = (m, me)"
    by (cases "fileMatchSize u f (minSize p) (maxSize p)")
  have a: "\<not> a \<Longrightarrow> ae \<noteq> None" using assms(2) [rule_format, of "acceptAttr u p"] fa by simp
  have m: "\<not> m \<Longrightarrow> me \<noteq> None"
    using assms(3) [rule_format, of "minSize p" "maxSize p"] fm by simp
  show ?thesis
  proof (cases "validator p")
    case None
    then show ?thesis using assms(1) a m
      by (auto simp add: evalFile_def fa fm nonNull_def Let_def)
  next
    case (Some v)
    then have "v f \<noteq> VArray []" using assms(4) by simp
    then show ?thesis using assms(1) a m Some
      by (cases "v f") (auto simp add: evalFile_def fa fm nonNull_def Let_def)
  qed
qed

lemma evalFiles_errors_nonempty:
  assumes "\<forall>r \<in> set (snd acc). errors r \<noteq> []"
    and "\<forall>f a. \<not> fst (fileAccepted u f a) \<longrightarrow> snd (fileAccepted u f a) \<noteq> None"
    and "\<forall>f lo hi. \<not> fst (fileMatchSize u f lo hi) \<longrightarrow> snd (fileMatchSize u f lo hi) \<noteq> None"
    and "\<forall>v f. validator p = Some v \<longrightarrow> v f \<noteq> VArray []"
  shows "\<forall>r \<in> set (snd (evalFiles u p files acc)). errors r \<noteq> []"
  using assms(1)
proof (induction files arbitrary: acc)
  case Nil
  then show ?case by simp
next
  case (Cons f fs)
  have "\<forall>r \<in> set (snd (evalFile u p f acc)). errors r \<noteq> []"
    using evalFile_errors_nonempty [of acc u f p] Cons.prems assms(2,3,4) by blast
  then show ?case using Cons.IH by simp
qed

lemma setFiles_errors_nonempty:
  assumes "\<forall>f a. \<not> fst (fileAccepted u f a) \<longrightarrow> snd (fileAccepted u f a) \<noteq> None"
    and "\<forall>f lo hi. \<not> fst (fileMatchSize u f lo hi) \<longrightarrow> snd (fileMatchSize u f lo hi) \<noteq> None"
    and "\<forall>v f. validator p = Some v \<longrightarrow> v f \<noteq> VArray []"
  shows "\<forall>r \<in> set (fileRejections (setFiles u p files event s)). errors r \<noteq> []"
proof -
  have "\<forall>r \<in> set (snd (evalFiles u p files ([], []))). errors r \<noteq> []"
    using evalFiles_errors_nonempty [of "([], [])" u p files] assms by simp
  then show ?thesis
    by (auto simp add: setFiles_fields guardFiles_def)
qed

text \<open>
  C2. A validator that answers with the empty array for a file that passes the type and
  the size check: the array is truthy, so the file is rejected, and its rejection
  carries no error at all.
\<close>

theorem setFiles_empty_validator_array:
  "fileRejections (setFiles exUtils (defaultProps\<lparr>validator := Some (\<lambda>f. VArray [])\<rparr>)
       [exFile1] None (initialState exUtils defaultProps))
     = [\<lparr>fileOf = exFile1, errors = []\<rparr>]"
  by (simp add: setFiles_fields guardFiles_def tooManyFiles_def evalFile_def nonNull_def
        exUtils_def defaultProps_def)

text \<open>
  C3. With no originating event (\<open>null\<close>) \<open>setFiles\<close> invokes no callback at all. With
  an event it invokes, in this order and nothing else: \<open>onDrop\<close> with the final
  accepted and rejected lists and the event, whatever the lists are; \<open>onDropRejected\<close>
  with the rejected list and the event exactly when that list is not empty;
  \<open>onDropAccepted\<close> with the accepted list and the event exactly when that list is not
  empty. (A callback the caller did not supply cannot be invoked; the three flags
  \<open>onDrop\<close>, \<open>onDropRejected\<close>, \<open>onDropAccepted\<close> say which ones were supplied.)
\<close>

theorem setFiles_callbacks:
  assumes "s' = setFiles u p files event s"
  shows "(event = None \<longrightarrow> effects s' = effects s) \<and>
         (\<forall>ev. event = Some ev \<longrightarrow>
            effects s' = effects s @
              (if onDrop p then [CallOnDrop (acceptedFiles s') (fileRejections s') ev] else []) @
              (if fileRejections s' \<noteq> [] \<and> onDropRejected p
               then [CallOnDropRejected (fileRejections s') ev] else []) @
              (if acceptedFiles s' \<noteq> [] \<and> onDropAccepted p
               then [CallOnDropAccepted (acceptedFiles s') ev] else []))"
  using assms by (simp add: setFiles_fields setFiles_effects)

theorem setFiles_callbacks_witness:
  "effects (setFiles exUtils defaultProps [exFile1] None (initialState exUtils defaultProps)) = []
   \<and> effects (setFiles exUtils defaultProps [exFile1] (Some exEvent)
                (initialState exUtils defaultProps))
       = [CallOnDrop [exFile1] [] exEvent, CallOnDropAccepted [exFile1] exEvent]
   \<and> effects (setFiles exUtils (defaultProps\<lparr>multiple := False\<rparr>) [exFile1, exFile2]
                (Some exEvent) (initialState exUtils defaultProps))
       = [CallOnDrop []
            [\<lparr>fileOf = exFile1, errors = [TOO_MANY_FILES_REJECTION]\<rparr>,
             \<lparr>fileOf = exFile2, errors = [TOO_MANY_FILES_REJECTION]\<rparr>] exEvent,
          CallOnDropRejected
            [\<lparr>fileOf = exFile1, errors = [TOO_MANY_FILES_REJECTION]\<rparr>,
             \<lparr>fileOf = exFile2, errors = [TOO_MANY_FILES_REJECTION]\<rparr>] exEvent]"
proof -
  have f1: "acceptedFiles (setFiles exUtils defaultProps [exFile1] (Some exEvent)
                (initialState exUtils defaultProps)) = [exFile1]"
    "fileRejections (setFiles exUtils defaultProps [exFile1] (Some exEvent)
                (initialState exUtils defaultProps)) = []"
    by (simp_all add: setFiles_fields guardFiles_def tooManyFiles_def evalFile_def exUtils_def
          defaultProps_def)
  have f2: "acceptedFiles (setFiles exUtils (defaultProps\<lparr>multiple := False\<rparr>)
                [exFile1, exFile2] (Some exEvent) (initialState exUtils defaultProps)) = []"
    "fileRejections (setFiles exUtils (defaultProps\<lparr>multiple := False\<rparr>)
                [exFile1, exFile2] (Some exEvent) (initialState exUtils defaultProps))
       = [\<lparr>fileOf = exFile1, errors = [TOO_MANY_FILES_REJECTION]\<rparr>,
          \<lparr>fileOf = exFile2, errors = [TOO_MANY_FILES_REJECTION]\<rparr>]"
    by (simp_all add: setFiles_fields guardFiles_def tooManyFiles_def evalFile_def exUtils_def
          defaultProps_def)
  have pr: "onDrop defaultProps" "onDropRejected defaultProps" "onDropAccepted defaultProps"
    by (simp_all add: defaultProps_def)
  have st: "effects (initialState exUtils defaultProps) = []"
    by (simp add: initialState_def)
  show ?thesis
    using setFiles_callbacks [where u = exUtils and p = defaultProps and files = "[exFile1]"
            and event = None and s = "initialState exUtils defaultProps", OF refl]
          setFiles_callbacks [where u = exUtils and p = defaultProps and files = "[exFile1]"
            and event = "Some exEvent" and s = "initialState exUtils defaultProps", OF refl]
          setFiles_callbacks [where u = exUtils and p = "defaultProps\<lparr>multiple := False\<rparr>"
            and files = "[exFile1, exFile2]" and event = "Some exEvent"
            and s = "initialState exUtils defaultProps", OF refl]
    by (simp add: f1 f2 pr st)
qed


section \<open>Pairing of drag-enter and drag-leave\<close>

lemma onDragEnterCb_targets:
  "dragTargets (fst (onDragEnterCb u p ev s)) = dragTargets s @ [target ev]"
  "rootRef (fst (onDragEnterCb u p ev s)) = rootRef s"
  by (simp_all add: onDragEnterCb_def emit_def Let_def)

lemma onDragEnterThen_targets:
  "dragTargets (onDragEnterThen u p ev s) = dragTargets s"
  "rootRef (onDragEnterThen u p ev s) = rootRef s"
  by (simp_all add: onDragEnterThen_def emit_def Let_def split: sum.splits)

lemma onDragLeaveCb_ignored:
  "target ev \<notin> set (dragTargets s) \<Longrightarrow> onDragLeaveCb p ev s = s"
  by (simp add: onDragLeaveCb_def)

lemma onDragLeaveCb_inner:
  assumes "evtWithFiles ev" and "rootContains s (target ev)"
    and "dragTargets s = replicate (Suc (Suc j)) (target ev)"
  shows "onDragLeaveCb p ev s =
           (emit (PreventDefault ev # stopPropagation p ev) s)
             \<lparr>dragTargets := replicate (Suc j) (target ev)\<rparr>"
  using assms by (simp add: onDragLeaveCb_def Let_def)

lemma onDragLeaveCb_last:
  assumes "evtWithFiles ev" and "rootContains s (target ev)"
    and "dragTargets s = [target ev]"
  shows "onDragLeaveCb p ev s =
           emit (if onDragLeave p then [CallOnDragLeave ev] else [])
             ((emit (PreventDefault ev # stopPropagation p ev) s)
                \<lparr>dragTargets := [], isDragActive := False, isDragAccept := False,
                  isDragReject := False\<rparr>)"
  using assms by (simp add: onDragLeaveCb_def Let_def)

lemma leaveCalls_emit:
  "leaveCalls (emit es s) = leaveCalls s + length (filter isLeaveCall es)"
  by (simp add: leaveCalls_def emit_def)

lemma leaveCalls_stopPropagation:
  "filter isLeaveCall (PreventDefault ev # stopPropagation p ev) = []"
  by (simp add: stopPropagation_def)

lemma rootContains_emit:
  "rootContains ((emit es s)\<lparr>dragTargets := ts\<rparr>) = rootContains s"
  by (rule ext) (simp add: rootContains_def emit_def)

lemma emit_emit: "emit es2 (emit es1 s) = emit (es1 @ es2) s"
  by (simp add: emit_def)

lemma emit_fields:
  "dragTargets (emit es s) = dragTargets s"
  "rootRef (emit es s) = rootRef s"
  "isDragActive (emit es s) = isDragActive s"
  "isDragAccept (emit es s) = isDragAccept s"
  "isDragReject (emit es s) = isDragReject s"
  "rootContains (emit es s) = rootContains s"
  by (simp_all add: emit_def rootContains_def fun_eq_iff)

lemma leavePrelude_calls:
  "length (filter isLeaveCall (leavePrelude p props ev)) = (if onDragLeave p then 1 else 0)"
  by (simp add: leavePrelude_def split: option.splits Handler.splits)

text \<open>
  With the drag handlers attached and a plain override, the handler the root bundle holds
  for drag-leave is: the wrapper's \<open>stopPropagation\<close>, the caller's \<open>onDragLeave\<close>, the
  override, then \<open>onDragLeaveCb\<close>.
\<close>

lemma dispatch_DragLeave:
  assumes "\<not> noDrag p" and "noDragEventsBubbling p \<or> \<not> disabled p"
    and "plainOverride (rootOnDragLeave props)"
  shows "dispatch u p props (DragLeave ev) s =
           onDragLeaveCb p ev (emit (leavePrelude p props ev) s)"
proof -
  consider (none) "rootOnDragLeave props = None"
    | (override) nm where "rootOnDragLeave props = Some (Override nm)"
    using assms(3) by (cases "rootOnDragLeave props" rule: plainOverride.cases) simp_all
  then show ?thesis
  proof cases
    case none
    then show ?thesis using assms(1,2)
      by (auto simp add: dispatch_def dispatchTo_def getRootProps_def composeDragHandler_def
            composeHandler_def localCallback_def composeEventHandlers_def runCb_def
            callLocal_def leavePrelude_def emit_emit emit_def)
  next
    case override
    then show ?thesis using assms(1,2)
      by (auto simp add: dispatch_def dispatchTo_def getRootProps_def composeDragHandler_def
            composeHandler_def localCallback_def composeEventHandlers_def runCb_def
            callLocal_def leavePrelude_def emit_emit emit_def)
  qed
qed

lemma dispatch_DragEnter:
  assumes "\<not> noDrag p" and "noDragEventsBubbling p \<or> \<not> disabled p"
    and "plainOverride (rootOnDragEnter props)"
  shows "dragTargets (dispatch u p props (DragEnter ev) s) = dragTargets s @ [target ev]"
    and "rootRef (dispatch u p props (DragEnter ev) s) = rootRef s"
    and "dtFiles ev \<noteq> [] \<Longrightarrow> isDragActive (dispatch u p props (DragEnter ev) s)"
proof -
  consider (none) "rootOnDragEnter props = None"
    | (override) nm where "rootOnDragEnter props = Some (Override nm)"
    using assms(3) by (cases "rootOnDragEnter props" rule: plainOverride.cases) simp_all
  then have "\<exists>es. dispatch u p props (DragEnter ev) s = fst (onDragEnterCb u p ev (emit es s))"
  proof cases
    case none
    then show ?thesis using assms(1,2)
      by (auto simp add: dispatch_def dispatchTo_def getRootProps_def composeDragHandler_def
            composeHandler_def localCallback_def composeEventHandlers_def runCb_def
            emit_emit intro: exI [of _ "[]"] simp add: emit_def)
  next
    case override
    then show ?thesis using assms(1,2)
      by (auto simp add: dispatch_def dispatchTo_def getRootProps_def composeDragHandler_def
            composeHandler_def localCallback_def composeEventHandlers_def runCb_def
            emit_emit)
  qed
  then obtain es where d: "dispatch u p props (DragEnter ev) s = fst (onDragEnterCb u p ev (emit es s))"
    by blast
  show "dragTargets (dispatch u p props (DragEnter ev) s) = dragTargets s @ [target ev]"
    by (simp add: d onDragEnterCb_targets emit_fields)
  show "rootRef (dispatch u p props (DragEnter ev) s) = rootRef s"
    by (simp add: d onDragEnterCb_targets emit_fields)
  show "dtFiles ev \<noteq> [] \<Longrightarrow> isDragActive (dispatch u p props (DragEnter ev) s)"
    by (simp add: d onDragEnterCb_def emit_def Let_def)
qed

lemma dispatch_DragEnterThen:
  "dispatch u p props (DragEnterThen ev) s = onDragEnterThen u p ev s"
  by (simp add: dispatch_def step_def)

lemma onDragEnterThen_leaveCalls:
  "leaveCalls (onDragEnterThen u p ev s) = leaveCalls s"
  by (simp add: onDragEnterThen_def onErrCb_def leaveCalls_def emit_def Let_def
        split: sum.splits)

lemma onDragEnterThen_activates:
  assumes "\<exists>fs. getFilesFromEvent p ev = Inr fs"
    and "\<not> (propagationStopped ev \<and> \<not> noDragEventsBubbling p)"
  shows "isDragActive (onDragEnterThen u p ev s)"
  using assms by (auto simp add: onDragEnterThen_def emit_def Let_def)

lemma dispatch_enters:
  assumes "\<not> noDrag p" and "noDragEventsBubbling p \<or> \<not> disabled p"
    and "plainOverride (rootOnDragEnter props)"
  shows "dragTargets (fold (dispatch u p props) (map DragEnter evs) s)
           = dragTargets s @ map target evs \<and>
         rootRef (fold (dispatch u p props) (map DragEnter evs) s) = rootRef s"
  by (induction evs arbitrary: s) (simp_all add: dispatch_DragEnter [OF assms])

text \<open>
  One drag-leave on a node tracked \<open>n\<close> times, sent through the bundle: one occurrence
  is removed; the caller's \<open>onDragLeave\<close> is invoked by the composed handler, and once
  more by \<open>onDragLeaveCb\<close> when the last occurrence goes, which is also when the three
  flags are reset.
\<close>

lemma dispatch_leave_step:
  assumes "\<not> noDrag p" and "noDragEventsBubbling p \<or> \<not> disabled p"
    and "plainOverride (rootOnDragLeave props)"
    and "target ev = x" and "evtWithFiles ev"
    and "rootContains s x" and "dragTargets s = replicate n x"
  shows "dragTargets (dispatch u p props (DragLeave ev) s) = replicate (n - 1) x"
    and "rootContains (dispatch u p props (DragLeave ev) s) x"
    and "leaveCalls (dispatch u p props (DragLeave ev) s) =
           leaveCalls s + (if onDragLeave p then (if n = 1 then 2 else 1) else 0)"
    and "n \<noteq> 1 \<Longrightarrow> isDragActive (dispatch u p props (DragLeave ev) s) = isDragActive s \<and>
           isDragAccept (dispatch u p props (DragLeave ev) s) = isDragAccept s \<and>
           isDragReject (dispatch u p props (DragLeave ev) s) = isDragReject s"
    and "n = 1 \<Longrightarrow> \<not> isDragActive (dispatch u p props (DragLeave ev) s) \<and>
           \<not> isDragAccept (dispatch u p props (DragLeave ev) s) \<and>
           \<not> isDragReject (dispatch u p props (DragLeave ev) s)"
proof -
  let ?t = "emit (leavePrelude p props ev) s"
  have d: "dispatch u p props (DragLeave ev) s = onDragLeaveCb p ev ?t"
    by (rule dispatch_DragLeave [OF assms(1,2,3)])
  have rc: "rootContains ?t (target ev)" using assms(4,6) by (simp add: emit_fields)
  have lt: "leaveCalls ?t = leaveCalls s + (if onDragLeave p then 1 else 0)"
    by (simp add: leaveCalls_emit leavePrelude_calls)
  consider (zero) "n = 0" | (one) "n = 1" | (more) j where "n = Suc (Suc j)"
    by (cases n) (auto, metis not0_implies_Suc)
  then have all: "dragTargets (onDragLeaveCb p ev ?t) = replicate (n - 1) x \<and>
      rootContains (onDragLeaveCb p ev ?t) x \<and>
      leaveCalls (onDragLeaveCb p ev ?t) =
        leaveCalls s + (if onDragLeave p then (if n = 1 then 2 else 1) else 0) \<and>
      (n \<noteq> 1 \<longrightarrow> isDragActive (onDragLeaveCb p ev ?t) = isDragActive s \<and>
           isDragAccept (onDragLeaveCb p ev ?t) = isDragAccept s \<and>
           isDragReject (onDragLeaveCb p ev ?t) = isDragReject s) \<and>
      (n = 1 \<longrightarrow> \<not> isDragActive (onDragLeaveCb p ev ?t) \<and>
           \<not> isDragAccept (onDragLeaveCb p ev ?t) \<and>
           \<not> isDragReject (onDragLeaveCb p ev ?t))"
  proof cases
    case zero
    have "target ev \<notin> set (dragTargets ?t)" using assms(7) zero by (simp add: emit_fields)
    then have "onDragLeaveCb p ev ?t = ?t" by (rule onDragLeaveCb_ignored)
    then show ?thesis using zero assms(6,7) lt by (simp add: emit_fields)
  next
    case one
    have dt: "dragTargets ?t = [target ev]" using assms(4,7) one by (simp add: emit_fields)
    have st: "onDragLeaveCb p ev ?t =
           emit (if onDragLeave p then [CallOnDragLeave ev] else [])
             ((emit (PreventDefault ev # stopPropagation p ev) ?t)
                \<lparr>dragTargets := [], isDragActive := False, isDragAccept := False,
                  isDragReject := False\<rparr>)"
      by (rule onDragLeaveCb_last [OF assms(5) rc dt])
    have lc: "leaveCalls (onDragLeaveCb p ev ?t) = leaveCalls ?t + (if onDragLeave p then 1 else 0)"
      using leaveCalls_stopPropagation [of ev p]
      unfolding st by (simp add: leaveCalls_def emit_def)
    have rc': "rootContains (onDragLeaveCb p ev ?t) x"
      using assms(6) unfolding st by (simp add: rootContains_def emit_def)
    have fl: "dragTargets (onDragLeaveCb p ev ?t) = [] \<and> \<not> isDragActive (onDragLeaveCb p ev ?t) \<and>
              \<not> isDragAccept (onDragLeaveCb p ev ?t) \<and> \<not> isDragReject (onDragLeaveCb p ev ?t)"
      unfolding st by (simp add: emit_def)
    show ?thesis using one fl lc lt rc' by simp
  next
    case more
    have dt: "dragTargets ?t = replicate (Suc (Suc j)) (target ev)"
      using assms(4,7) more by (simp add: emit_fields)
    have st: "onDragLeaveCb p ev ?t =
              (emit (PreventDefault ev # stopPropagation p ev) ?t)
                \<lparr>dragTargets := replicate (Suc j) (target ev)\<rparr>"
      by (rule onDragLeaveCb_inner [OF assms(5) rc dt])
    have lc: "leaveCalls (onDragLeaveCb p ev ?t) = leaveCalls ?t"
      using leaveCalls_stopPropagation [of ev p]
      unfolding st by (simp add: leaveCalls_def emit_def)
    have rc': "rootContains (onDragLeaveCb p ev ?t) x"
      using assms(6) unfolding st by (simp add: rootContains_def emit_def)
    have fl: "dragTargets (onDragLeaveCb p ev ?t) = replicate (Suc j) x \<and>
              isDragActive (onDragLeaveCb p ev ?t) = isDragActive s \<and>
              isDragAccept (onDragLeaveCb p ev ?t) = isDragAccept s \<and>
              isDragReject (onDragLeaveCb p ev ?t) = isDragReject s"
      using assms(4) unfolding st by (simp add: emit_def)
    show ?thesis using more fl lc lt rc' by simp
  qed
  show "dragTargets (dispatch u p props (DragLeave ev) s) = replicate (n - 1) x"
    and "rootContains (dispatch u p props (DragLeave ev) s) x"
    and "leaveCalls (dispatch u p props (DragLeave ev) s) =
           leaveCalls s + (if onDragLeave p then (if n = 1 then 2 else 1) else 0)"
    and "n \<noteq> 1 \<Longrightarrow> isDragActive (dispatch u p props (DragLeave ev) s) = isDragActive s \<and>
           isDragAccept (dispatch u p props (DragLeave ev) s) = isDragAccept s \<and>
           isDragReject (dispatch u p props (DragLeave ev) s) = isDragReject s"
    and "n = 1 \<Longrightarrow> \<not> isDragActive (dispatch u p props (DragLeave ev) s) \<and>
           \<not> isDragAccept (dispatch u p props (DragLeave ev) s) \<and>
           \<not> isDragReject (dispatch u p props (DragLeave ev) s)"
    using all by (simp_all add: d)
qed

text \<open>
  Leaves on a node tracked \<open>n\<close> times, with continuations of drag-enter promises running
  anywhere among them: the count of tracked occurrences and of \<open>onDragLeave\<close> calls.
\<close>

lemma dispatch_leaves:
  assumes "\<not> noDrag p" and "noDragEventsBubbling p \<or> \<not> disabled p"
    and "plainOverride (rootOnDragLeave props)"
    and "\<forall>a \<in> set as. leaveOrSettle x a"
    and "rootContains s x" and "dragTargets s = replicate n x"
  shows "dragTargets (fold (dispatch u p props) as s) = replicate (n - leavesIn as) x \<and>
         leaveCalls (fold (dispatch u p props) as s) =
           leaveCalls s + (if onDragLeave p
                           then leavesIn as + (if 0 < n \<and> n \<le> leavesIn as then 1 else 0)
                           else 0)"
  using assms(4,5,6)
proof (induction as arbitrary: s n)
  case Nil
  then show ?case by (auto simp add: leavesIn_def)
next
  case (Cons a as)
  have rest: "\<forall>a \<in> set as. leaveOrSettle x a" using Cons.prems(1) by simp
  have this_one: "leaveOrSettle x a" using Cons.prems(1) by simp
  show ?case
  proof (cases a)
    case (DragLeave ev)
    have te: "target ev = x" and fe: "evtWithFiles ev" using this_one DragLeave by simp_all
    note S = dispatch_leave_step [OF assms(1,2,3) te fe Cons.prems(2,3), where u = u]
    have k: "leavesIn (a # as) = Suc (leavesIn as)" using DragLeave by (simp add: leavesIn_def)
    note IH = Cons.IH [OF rest S(2) S(1)]
    show ?thesis using IH S(3) k DragLeave by (cases n) (auto simp add: leavesIn_def)
  next
    case (DragEnterThen ev)
    have d: "dispatch u p props a s = onDragEnterThen u p ev s"
      using DragEnterThen by (simp add: dispatch_DragEnterThen)
    have rc: "rootContains (onDragEnterThen u p ev s) x"
      using Cons.prems(2) by (simp add: rootContains_def onDragEnterThen_targets)
    have dt: "dragTargets (onDragEnterThen u p ev s) = replicate n x"
      using Cons.prems(3) by (simp add: onDragEnterThen_targets)
    have k: "leavesIn (a # as) = leavesIn as" using DragEnterThen by (simp add: leavesIn_def)
    note IH = Cons.IH [OF rest rc dt]
    show ?thesis using IH k by (simp add: d onDragEnterThen_leaveCalls)
  qed (use this_one in simp_all)
qed

text \<open>Only a drag-enter puts a target on the list.\<close>

lemma setFiles_frame:
  "dragTargets (setFiles u p files event s) = dragTargets s"
  "fsAccessApiWorks (setFiles u p files event s) = fsAccessApiWorks s"
  "isFocused (setFiles u p files event s) = isFocused s"
  "isDragActive (setFiles u p files event s) = isDragActive s"
  "isDragAccept (setFiles u p files event s) = isDragAccept s"
  "isFileDialogActive (setFiles u p files event s) = isFileDialogActive s"
  "inputRef (setFiles u p files event s) = inputRef s"
  "rootRef (setFiles u p files event s) = rootRef s"
  "timers (setFiles u p files event s) = timers s"
  by (simp_all add: setFiles_def emit_def Let_def split: prod.splits option.splits)

lemma openFileDialog_frame:
  "dragTargets (openFileDialog p s) = dragTargets s"
  "fsAccessApiWorks (openFileDialog p s) = fsAccessApiWorks s"
  "isFocused (openFileDialog p s) = isFocused s"
  by (simp_all add: openFileDialog_def emit_def split: option.splits)

lemma onDragLeaveCb_targets_subset:
  "set (dragTargets (onDragLeaveCb p ev s)) \<subseteq> set (dragTargets s)"
proof -
  have "set (remove1 (target ev) (filter (rootContains s) (dragTargets s)))
          \<subseteq> set (dragTargets s)"
    using set_remove1_subset [of "target ev" "filter (rootContains s) (dragTargets s)"]
    by auto
  then show ?thesis
    by (simp add: onDragLeaveCb_def Let_def emit_def)
qed

lemma step_dragTargets:
  "set (dragTargets (step u p a s)) \<subseteq>
     set (dragTargets s) \<union> (case a of DragEnter ev \<Rightarrow> {target ev} | _ \<Rightarrow> {})"
proof (cases a)
  case (DragLeave ev)
  then show ?thesis using onDragLeaveCb_targets_subset [of p ev s] by (simp add: step_def)
next
  case (TimerFires k)
  then show ?thesis
    by (cases "snd (timers s ! k)")
       (simp_all add: step_def runTask_def cancelCheck_def openFileDialog_frame emit_def
          split: option.splits)
qed (simp_all add: step_def onDragEnterCb_targets onDragEnterThen_targets onDragOverCb_def
       onDropCb_def onDropThen_def onDocumentDrop_def onKeyDownCb_def onFocusCb_def onBlurCb_def
       onClickCb_def openDialog_def openFileDialogThen_def onWindowFocus_def
       setFiles_frame openFileDialog_frame emit_def Let_def
       split: sum.splits option.splits PickerOutcome.splits)

lemma step_dragTargets_entered:
  "set (dragTargets (step u q a s)) \<subseteq> set (dragTargets s) \<union> set (enteredTargets [(q, a)])"
  using step_dragTargets [of u q a s] by (cases a) simp_all

lemma enteredTargets_Cons:
  "set (enteredTargets ((q, a) # as)) = set (enteredTargets [(q, a)]) \<union> set (enteredTargets as)"
  by (cases a) simp_all

lemma run_dragTargets:
  "set (dragTargets (run u as s)) \<subseteq> set (dragTargets s) \<union> set (enteredTargets as)"
proof (induction as arbitrary: s)
  case Nil
  then show ?case by simp
next
  case (Cons pa as)
  obtain q a where pa: "pa = (q, a)" by (cases pa)
  have "set (dragTargets (run u as (step u q a s))) \<subseteq>
          set (dragTargets (step u q a s)) \<union> set (enteredTargets as)"
    by (rule Cons.IH)
  then show ?case
    using step_dragTargets_entered [of u q a s] enteredTargets_Cons [of q a as]
    unfolding pa by auto
qed

text \<open>
  C4, as the code has it. The instance starts with no target tracked and a bound root that
  contains the node \<open>x\<close>; its root element carries the bundle of \<open>getRootProps\<close>, the drag
  handlers are attached and the caller's overrides, if any, are functions of the
  caller's own. \<open>n \<ge> 1\<close> file-carrying drag-enter events on \<open>x\<close> are handled (the list
  \<open>ens\<close>); then come file-carrying drag-leave events on \<open>x\<close>, with the continuations of
  the drag-enter promises running anywhere among them (the list \<open>as\<close>). After the enters
  \<open>x\<close> is tracked \<open>n\<close> times (and drag-active is true if the last enter exposed its files
  synchronously). After \<open>as\<close>, with \<open>k\<close> leaves in it, \<open>x\<close> is tracked \<open>n - k\<close> times and
  the caller's \<open>onDragLeave\<close> has been invoked \<open>k\<close> times by the composed handler, once
  for every leave, and once more by \<open>onDragLeaveCb\<close> if \<open>k \<ge> n\<close>. A leave that finds \<open>x\<close>
  tracked more than once leaves the three drag flags as they are; the leave that finds it
  tracked once sets all three to false. A leave whose target is not tracked changes no
  signal and no variable, but the composed handler still invokes the caller's
  \<open>onDragLeave\<close> for it. A continuation that is not swallowed sets drag-active to true
  whenever it runs, also after the last leave. A node that no drag-enter of a run from
  the initial state named is not tracked.
\<close>

theorem dragEnter_dragLeave_through_bundle:
  assumes "ens \<noteq> []"
    and "\<forall>e \<in> set ens. target e = x \<and> evtWithFiles e"
    and "\<forall>a \<in> set as. leaveOrSettle x a"
    and "\<not> noDrag p" and "noDragEventsBubbling p \<or> \<not> disabled p"
    and "plainOverride (rootOnDragEnter props)" and "plainOverride (rootOnDragLeave props)"
    and "rootRef s = Some nodes" and "x \<in> set nodes"
    and "dragTargets s = []"
    and "sE = fold (dispatch u p props) (map DragEnter ens) s"
    and "sL = fold (dispatch u p props) as sE"
  shows "dragTargets sE = replicate (length ens) x \<and>
         (dtFiles (last ens) \<noteq> [] \<longrightarrow> isDragActive sE) \<and>
         dragTargets sL = replicate (length ens - leavesIn as) x \<and>
         leaveCalls sL =
           leaveCalls sE + (if onDragLeave p
                            then leavesIn as + (if length ens \<le> leavesIn as then 1 else 0)
                            else 0) \<and>
         (\<forall>t e j. target e = x \<and> evtWithFiles e \<and> rootContains t x \<and>
                  dragTargets t = replicate (Suc (Suc j)) x \<longrightarrow>
            isDragActive (dispatch u p props (DragLeave e) t) = isDragActive t \<and>
            isDragAccept (dispatch u p props (DragLeave e) t) = isDragAccept t \<and>
            isDragReject (dispatch u p props (DragLeave e) t) = isDragReject t \<and>
            dragTargets (dispatch u p props (DragLeave e) t) = replicate (Suc j) x) \<and>
         (\<forall>t e. target e = x \<and> evtWithFiles e \<and> rootContains t x \<and> dragTargets t = [x] \<longrightarrow>
            \<not> isDragActive (dispatch u p props (DragLeave e) t) \<and>
            \<not> isDragAccept (dispatch u p props (DragLeave e) t) \<and>
            \<not> isDragReject (dispatch u p props (DragLeave e) t) \<and>
            dragTargets (dispatch u p props (DragLeave e) t) = []) \<and>
         (\<forall>t e. target e \<notin> set (dragTargets t) \<longrightarrow>
            dispatch u p props (DragLeave e) t = emit (leavePrelude p props e) t) \<and>
         (\<forall>t e. (\<exists>fs. getFilesFromEvent p e = Inr fs) \<and>
                \<not> (propagationStopped e \<and> \<not> noDragEventsBubbling p) \<longrightarrow>
            isDragActive (dispatch u p props (DragEnterThen e) t)) \<and>
         (\<forall>(e::Event) acts pc. target e \<notin> set (enteredTargets acts) \<longrightarrow>
            target e \<notin> set (dragTargets (run u acts (initialState u pc))))"
proof -
  have mp: "map target ens = replicate (length ens) x"
    using assms(2) by (induction ens) simp_all
  have tg: "dragTargets sE = replicate (length ens) x" and rr: "rootRef sE = Some nodes"
    using dispatch_enters [OF assms(4,5,6), where u = u and evs = ens and s = s]
      assms(8,10,11) mp by simp_all
  have rc: "rootContains sE x"
    using rr assms(9) by (simp add: rootContains_def)
  have sp: "map DragEnter ens = map DragEnter (butlast ens) @ [DragEnter (last ens)]"
    using assms(1) by (metis append_butlast_last_id list.simps(8,9) map_append)
  have lastE: "sE = dispatch u p props (DragEnter (last ens))
                      (fold (dispatch u p props) (map DragEnter (butlast ens)) s)"
    unfolding assms(11) sp by simp
  have act: "dtFiles (last ens) \<noteq> [] \<longrightarrow> isDragActive sE"
    using dispatch_DragEnter(3) [OF assms(4,5,6)] lastE by simp
  have pos: "0 < length ens" using assms(1) by simp
  have L: "dragTargets sL = replicate (length ens - leavesIn as) x \<and>
         leaveCalls sL =
           leaveCalls sE + (if onDragLeave p
                            then leavesIn as + (if length ens \<le> leavesIn as then 1 else 0)
                            else 0)"
    using dispatch_leaves [OF assms(4,5,7,3) rc tg, where u = u] pos assms(12) by simp
  have inner: "\<forall>t e j. target e = x \<and> evtWithFiles e \<and> rootContains t x \<and>
                  dragTargets t = replicate (Suc (Suc j)) x \<longrightarrow>
            isDragActive (dispatch u p props (DragLeave e) t) = isDragActive t \<and>
            isDragAccept (dispatch u p props (DragLeave e) t) = isDragAccept t \<and>
            isDragReject (dispatch u p props (DragLeave e) t) = isDragReject t \<and>
            dragTargets (dispatch u p props (DragLeave e) t) = replicate (Suc j) x"
  proof (intro allI impI)
    fix t :: DropzoneState and e :: Event and j :: nat
    assume h: "target e = x \<and> evtWithFiles e \<and> rootContains t x \<and>
               dragTargets t = replicate (Suc (Suc j)) x"
    note S = dispatch_leave_step [OF assms(4,5,7), where u = u and ev = e and x = x and s = t
               and n = "Suc (Suc j)"]
    show "isDragActive (dispatch u p props (DragLeave e) t) = isDragActive t \<and>
            isDragAccept (dispatch u p props (DragLeave e) t) = isDragAccept t \<and>
            isDragReject (dispatch u p props (DragLeave e) t) = isDragReject t \<and>
            dragTargets (dispatch u p props (DragLeave e) t) = replicate (Suc j) x"
      using S(1) S(4) h by simp
  qed
  have final: "\<forall>t e. target e = x \<and> evtWithFiles e \<and> rootContains t x \<and> dragTargets t = [x] \<longrightarrow>
            \<not> isDragActive (dispatch u p props (DragLeave e) t) \<and>
            \<not> isDragAccept (dispatch u p props (DragLeave e) t) \<and>
            \<not> isDragReject (dispatch u p props (DragLeave e) t) \<and>
            dragTargets (dispatch u p props (DragLeave e) t) = []"
  proof (intro allI impI)
    fix t :: DropzoneState and e :: Event
    assume h: "target e = x \<and> evtWithFiles e \<and> rootContains t x \<and> dragTargets t = [x]"
    note S = dispatch_leave_step [OF assms(4,5,7), where u = u and ev = e and x = x and s = t
               and n = 1]
    show "\<not> isDragActive (dispatch u p props (DragLeave e) t) \<and>
            \<not> isDragAccept (dispatch u p props (DragLeave e) t) \<and>
            \<not> isDragReject (dispatch u p props (DragLeave e) t) \<and>
            dragTargets (dispatch u p props (DragLeave e) t) = []"
      using S(1) S(5) h by simp
  qed
  have stray: "\<forall>t e. target e \<notin> set (dragTargets t) \<longrightarrow>
            dispatch u p props (DragLeave e) t = emit (leavePrelude p props e) t"
    by (simp add: dispatch_DragLeave [OF assms(4,5,7)] onDragLeaveCb_ignored emit_fields)
  have settle: "\<forall>t e. (\<exists>fs. getFilesFromEvent p e = Inr fs) \<and>
                \<not> (propagationStopped e \<and> \<not> noDragEventsBubbling p) \<longrightarrow>
            isDragActive (dispatch u p props (DragEnterThen e) t)"
    using onDragEnterThen_activates by (simp add: dispatch_DragEnterThen)
  have never: "\<forall>(e::Event) acts pc. target e \<notin> set (enteredTargets acts) \<longrightarrow>
            target e \<notin> set (dragTargets (run u acts (initialState u pc)))"
  proof (intro allI impI)
    fix e :: Event and acts :: "(DropzoneProps \<times> Action) list" and pc :: DropzoneProps
    assume ne: "target e \<notin> set (enteredTargets acts)"
    have "set (dragTargets (run u acts (initialState u pc))) \<subseteq> set (enteredTargets acts)"
      using run_dragTargets [where u = u and as = acts and s = "initialState u pc"]
      by (simp add: initialState_def)
    then show "target e \<notin> set (dragTargets (run u acts (initialState u pc)))"
      using ne by blast
  qed
  show ?thesis
    using tg act L inner final stray settle never by blast
qed

theorem dragEnter_dragLeave_through_bundle_witness:
  "dragTargets (fold (dispatch exUtils defaultProps noOverrides)
      (map DragEnter [exEvent, exEvent]) exBoundState) = [1, 1] \<and>
   dragTargets (fold (dispatch exUtils defaultProps noOverrides)
      [DragLeave exEvent, DragEnterThen exEvent, DragLeave exEvent, DragLeave exEvent]
      (fold (dispatch exUtils defaultProps noOverrides)
         (map DragEnter [exEvent, exEvent]) exBoundState)) = [] \<and>
   leaveCalls (fold (dispatch exUtils defaultProps noOverrides)
      [DragLeave exEvent, DragEnterThen exEvent, DragLeave exEvent, DragLeave exEvent]
      (fold (dispatch exUtils defaultProps noOverrides)
         (map DragEnter [exEvent, exEvent]) exBoundState))
     = leaveCalls (fold (dispatch exUtils defaultProps noOverrides)
         (map DragEnter [exEvent, exEvent]) exBoundState) + 4 \<and>
   dispatch exUtils defaultProps noOverrides (DragLeave exStrayLeave) exBoundState
     = emit [CallOnDragLeave exStrayLeave] exBoundState \<and>
   isDragActive (dispatch exUtils defaultProps noOverrides (DragEnterThen exEvent) exBoundState)"
proof -
  have h1: "[exEvent, exEvent] \<noteq> []" by simp
  have h2: "\<forall>e \<in> set [exEvent, exEvent]. target e = 1 \<and> evtWithFiles e"
    by (simp add: exEvent_def)
  have h3: "\<forall>a \<in> set [DragLeave exEvent, DragEnterThen exEvent, DragLeave exEvent,
                       DragLeave exEvent]. leaveOrSettle 1 a"
    by (simp add: exEvent_def)
  have h4: "\<not> noDrag defaultProps"
    and h5: "noDragEventsBubbling defaultProps \<or> \<not> disabled defaultProps"
    by (simp_all add: defaultProps_def)
  have h6: "plainOverride (rootOnDragEnter noOverrides)"
    and h7: "plainOverride (rootOnDragLeave noOverrides)"
    by (simp_all add: noOverrides_def)
  have h8: "rootRef exBoundState = Some [0, 1]" and h9: "(1::nat) \<in> set [0, 1]"
    and h10: "dragTargets exBoundState = []"
    by (simp_all add: exBoundState_def initialState_def)
  note T = dragEnter_dragLeave_through_bundle [where u = exUtils,
             OF h1 h2 h3 h4 h5 h6 h7 h8 h9 h10 refl refl]
  have k: "leavesIn [DragLeave exEvent, DragEnterThen exEvent, DragLeave exEvent,
                     DragLeave exEvent] = 3"
    by (simp add: leavesIn_def)
  have cs: "onDragLeave defaultProps" by (simp add: defaultProps_def)
  have a: "dragTargets (fold (dispatch exUtils defaultProps noOverrides)
      (map DragEnter [exEvent, exEvent]) exBoundState) = [1, 1]"
    using T [THEN conjunct1] by (simp add: numeral_2_eq_2)
  have b: "dragTargets (fold (dispatch exUtils defaultProps noOverrides)
      [DragLeave exEvent, DragEnterThen exEvent, DragLeave exEvent, DragLeave exEvent]
      (fold (dispatch exUtils defaultProps noOverrides)
         (map DragEnter [exEvent, exEvent]) exBoundState)) = []"
    using T [THEN conjunct2, THEN conjunct2, THEN conjunct1] by (simp add: k)
  have c: "leaveCalls (fold (dispatch exUtils defaultProps noOverrides)
      [DragLeave exEvent, DragEnterThen exEvent, DragLeave exEvent, DragLeave exEvent]
      (fold (dispatch exUtils defaultProps noOverrides)
         (map DragEnter [exEvent, exEvent]) exBoundState))
     = leaveCalls (fold (dispatch exUtils defaultProps noOverrides)
         (map DragEnter [exEvent, exEvent]) exBoundState) + 4"
    using T [THEN conjunct2, THEN conjunct2, THEN conjunct2, THEN conjunct1] cs
    by (simp add: k)
  have ns: "target exStrayLeave \<notin> set (dragTargets exBoundState)"
    by (simp add: h10)
  have pre: "leavePrelude defaultProps noOverrides exStrayLeave = [CallOnDragLeave exStrayLeave]"
    by (simp add: leavePrelude_def defaultProps_def noOverrides_def)
  have d: "dispatch exUtils defaultProps noOverrides (DragLeave exStrayLeave) exBoundState
     = emit [CallOnDragLeave exStrayLeave] exBoundState"
    using T ns pre by metis
  have ok: "(\<exists>fs. getFilesFromEvent defaultProps exEvent = Inr fs) \<and>
            \<not> (propagationStopped exEvent \<and> \<not> noDragEventsBubbling defaultProps)"
    by (simp add: exEvent_def defaultProps_def)
  have e: "isDragActive (dispatch exUtils defaultProps noOverrides (DragEnterThen exEvent)
             exBoundState)"
    using T ok by blast
  show ?thesis using a b c d e by blast
qed

text \<open>
  The claim as it is written fails. One drag-enter and one drag-leave on node 1 of a
  default instance: the caller's \<open>onDragLeave\<close> is invoked twice, by the composed handler
  and by \<open>onDragLeaveCb\<close>. A leave on node 7, which was never entered, is not ignored
  entirely: the composed handler invokes \<open>onDragLeave\<close> for it. And when the extractor's
  promise of the drag-enter resolves after the leave, drag-active ends up true.
\<close>

theorem dragLeave_callback_on_every_leave:
  "leaveCalls (fold (dispatch exUtils defaultProps noOverrides)
      [DragEnter exEvent, DragLeave exEvent] exBoundState) = 2 \<and>
   leaveCalls exBoundState = 0 \<and>
   leaveCalls (dispatch exUtils defaultProps noOverrides (DragLeave exStrayLeave) exBoundState) = 1 \<and>
   isDragActive (fold (dispatch exUtils defaultProps noOverrides)
      [DragEnter exEvent, DragLeave exEvent, DragEnterThen exEvent] exBoundState)"
  by (simp add: dispatch_def dispatchTo_def getRootProps_def composeDragHandler_def
        composeHandler_def localCallback_def composeEventHandlers_def runCb_def callLocal_def
        step_def onDragEnterCb_def onDragEnterThen_def onDragLeaveCb_def stopPropagation_def
        rootContains_def leaveCalls_def emit_def predictAccept_def
        exBoundState_def initialState_def defaultProps_def noOverrides_def exEvent_def
        exStrayLeave_def exUtils_def Let_def)

section \<open>The drag flags after a drop\<close>








section \<open>The prop bundles of a disabled instance\<close>

text \<open>
  With \<open>disabled\<close> set, the keyboard, focus, blur and click handlers of the root bundle
  and both handlers of the input bundle are absent. The four drag handlers are absent
  exactly when \<open>noDrag\<close> is set or \<open>noDragEventsBubbling\<close> is not.
\<close>

lemma disabled_handlers:
  assumes "disabled p"
  shows "rootOnKeyDown (getRootProps p props) = None"
    and "rootOnFocus (getRootProps p props) = None"
    and "rootOnBlur (getRootProps p props) = None"
    and "rootOnClick (getRootProps p props) = None"
    and "inputOnChange (getInputProps u p iprops) = None"
    and "inputOnClick (getInputProps u p iprops) = None"
    and "(rootOnDragEnter (getRootProps p props) = None) = (noDrag p \<or> \<not> noDragEventsBubbling p)"
    and "(rootOnDragOver (getRootProps p props) = None) = (noDrag p \<or> \<not> noDragEventsBubbling p)"
    and "(rootOnDragLeave (getRootProps p props) = None) = (noDrag p \<or> \<not> noDragEventsBubbling p)"
    and "(rootOnDrop (getRootProps p props) = None) = (noDrag p \<or> \<not> noDragEventsBubbling p)"
  using assms
  by (simp_all add: getRootProps_def getInputProps_def composeHandler_def
        composeKeyboardHandler_def composeDragHandler_def)

text \<open>
  C6. A disabled instance with \<open>noDragEventsBubbling\<close> set (and \<open>noDrag\<close> not): the four
  drag handlers of the root bundle are not absent. Each is the wrapper of
  \<open>composeDragHandler\<close>, which calls \<open>event.stopPropagation()\<close> and then the composed
  handler that ends in the internal callback.
\<close>

theorem disabled_noDragEventsBubbling_handlers:
  "rootOnDragEnter (getRootProps (defaultProps\<lparr>disabled := True, noDragEventsBubbling := True\<rparr>)
       noOverrides)
     = Some (StopPropagationFirst (ComposeEventHandlers (Some (Supplied ''onDragEnter''))
         (Some (ComposeEventHandlers None (Some (Internal OnDragEnterCb)))))) \<and>
   rootOnDragOver (getRootProps (defaultProps\<lparr>disabled := True, noDragEventsBubbling := True\<rparr>)
       noOverrides)
     = Some (StopPropagationFirst (ComposeEventHandlers (Some (Supplied ''onDragOver''))
         (Some (ComposeEventHandlers None (Some (Internal OnDragOverCb)))))) \<and>
   rootOnDragLeave (getRootProps (defaultProps\<lparr>disabled := True, noDragEventsBubbling := True\<rparr>)
       noOverrides)
     = Some (StopPropagationFirst (ComposeEventHandlers (Some (Supplied ''onDragLeave''))
         (Some (ComposeEventHandlers None (Some (Internal OnDragLeaveCb)))))) \<and>
   rootOnDrop (getRootProps (defaultProps\<lparr>disabled := True, noDragEventsBubbling := True\<rparr>)
       noOverrides)
     = Some (StopPropagationFirst (ComposeEventHandlers (Some (Supplied ''onDrop''))
         (Some (ComposeEventHandlers None (Some (Internal OnDropCb))))))"
  by (simp add: getRootProps_def composeDragHandler_def localCallback_def noOverrides_def
        defaultProps_def)

section \<open>The modern-picker flag\<close>

lemma step_fsAccessApiWorks:
  "fsAccessApiWorks (step u p a s) =
     (fsAccessApiWorks s \<and>
      \<not> (case a of PickerSettles (Failed e) \<Rightarrow> \<not> isAbort e \<and> isSecurityError e | _ \<Rightarrow> False))"
proof (cases a)
  case (TimerFires k)
  then show ?thesis
    by (cases "snd (timers s ! k)")
       (simp_all add: step_def runTask_def cancelCheck_def openFileDialog_frame emit_def
          split: option.splits)
next
  case (PickerSettles outcome)
  then show ?thesis
    by (cases outcome)
       (auto simp add: step_def openFileDialogThen_def setFiles_frame emit_def Let_def
          split: option.splits)
next
  case (DragLeave ev)
  then show ?thesis by (simp add: step_def onDragLeaveCb_def Let_def emit_def)
qed (simp_all add: step_def onDragEnterCb_def onDragEnterThen_def onDragOverCb_def
       onDropCb_def onDropThen_def onDocumentDrop_def onKeyDownCb_def onFocusCb_def onBlurCb_def
       onClickCb_def openDialog_def onWindowFocus_def
       setFiles_frame openFileDialog_frame emit_def Let_def
       split: sum.splits option.splits)

lemma run_fsAccessApiWorks_stays_off:
  "\<not> fsAccessApiWorks s \<Longrightarrow> \<not> fsAccessApiWorks (run u as s)"
proof (induction as arbitrary: s)
  case Nil
  then show ?case by simp
next
  case (Cons pa as)
  obtain q a where pa: "pa = (q, a)" by (cases pa)
  have "\<not> fsAccessApiWorks (step u q a s)"
    using Cons.prems by (simp add: step_fsAccessApiWorks)
  then show ?case using Cons.IH by (simp add: pa)
qed

lemma downgrades_off:
  "\<not> fsAccessApiWorks s \<Longrightarrow> downgrades u as s = 0"
proof (induction as arbitrary: s)
  case Nil
  then show ?case by simp
next
  case (Cons pa as)
  obtain q a where pa: "pa = (q, a)" by (cases pa)
  have "\<not> fsAccessApiWorks (step u q a s)"
    using Cons.prems by (simp add: step_fsAccessApiWorks)
  then show ?case using Cons.IH Cons.prems by (simp add: pa)
qed

lemma downgrades_le_1:
  "downgrades u as s \<le> 1"
proof (induction as arbitrary: s)
  case Nil
  then show ?case by simp
next
  case (Cons pa as)
  obtain q a where pa: "pa = (q, a)" by (cases pa)
  show ?case
  proof (cases "fsAccessApiWorks (step u q a s)")
    case True
    then have "fsAccessApiWorks s" by (simp add: step_fsAccessApiWorks)
    then show ?thesis using True Cons.IH [of "step u q a s"] by (simp add: pa)
  next
    case False
    then show ?thesis using downgrades_off [of "step u q a s" u as] by (simp add: pa)
  qed
qed

lemma security_failure_effects:
  assumes "\<not> isAbort e" and "isSecurityError e"
  shows "effects (step u p (PickerSettles (Failed e)) s) =
           effects s @ (case inputRef s of
                          Some fs \<Rightarrow> [InputClearValue, InputClick]
                        | None \<Rightarrow> onErrCb p noInputError)"
  using assms
  by (simp add: step_def openFileDialogThen_def emit_def Let_def split: option.splits)

text \<open>
  C7. No action ever turns the modern-picker flag on. An action turns it off exactly
  when it is the failure of the picker's promise with an error that \<open>isSecurityError\<close>
  recognises (and \<open>isAbort\<close>, asked first, does not) while the flag is on. Hence along
  every run the flag goes from true to false at most once and, once false, stays false.
  At such a failure the effects are: with an input bound, its value is cleared and it is
  clicked; with none bound, \<open>onErrCb\<close> runs on the error that says so, which logs it and
  hands it to \<open>onError\<close> when the caller supplied that callback.
\<close>

theorem fsAccessApiWorks_downgraded_once:
  "(\<not> fsAccessApiWorks s \<longrightarrow> \<not> fsAccessApiWorks (step u p a s)) \<and>
   ((fsAccessApiWorks s \<and> \<not> fsAccessApiWorks (step u p a s)) =
      (fsAccessApiWorks s \<and>
       (\<exists>e. a = PickerSettles (Failed e) \<and> \<not> isAbort e \<and> isSecurityError e))) \<and>
   (\<not> fsAccessApiWorks s \<longrightarrow> \<not> fsAccessApiWorks (run u as s)) \<and>
   downgrades u as s \<le> 1 \<and>
   (\<forall>e. \<not> isAbort e \<and> isSecurityError e \<longrightarrow>
      \<not> fsAccessApiWorks (step u p (PickerSettles (Failed e)) s) \<and>
      effects (step u p (PickerSettles (Failed e)) s) =
        effects s @ (case inputRef s of
                       Some fs \<Rightarrow> [InputClearValue, InputClick]
                     | None \<Rightarrow> ConsoleError noInputError #
                         (if onError p then [CallOnError noInputError]
                          else [ConsoleError noInputError])))"
proof -
  have a1: "\<not> fsAccessApiWorks s \<longrightarrow> \<not> fsAccessApiWorks (step u p a s)"
    by (simp add: step_fsAccessApiWorks)
  have a2: "(fsAccessApiWorks s \<and> \<not> fsAccessApiWorks (step u p a s)) =
      (fsAccessApiWorks s \<and>
       (\<exists>e. a = PickerSettles (Failed e) \<and> \<not> isAbort e \<and> isSecurityError e))"
    by (auto simp add: step_fsAccessApiWorks split: Action.splits PickerOutcome.splits)
  have a3: "\<not> fsAccessApiWorks s \<longrightarrow> \<not> fsAccessApiWorks (run u as s)"
    using run_fsAccessApiWorks_stays_off by blast
  have a5: "\<forall>e. \<not> isAbort e \<and> isSecurityError e \<longrightarrow>
      \<not> fsAccessApiWorks (step u p (PickerSettles (Failed e)) s) \<and>
      effects (step u p (PickerSettles (Failed e)) s) =
        effects s @ (case inputRef s of
                       Some fs \<Rightarrow> [InputClearValue, InputClick]
                     | None \<Rightarrow> ConsoleError noInputError #
                         (if onError p then [CallOnError noInputError]
                          else [ConsoleError noInputError]))"
    by (simp add: step_fsAccessApiWorks security_failure_effects onErrCb_def
          split: option.splits)
  show ?thesis using a1 a2 a3 a5 downgrades_le_1 [of u as s] by blast
qed


theorem fsAccessApiWorks_downgraded_once_witness:
  "fsAccessApiWorks (initialState exUtils (defaultProps\<lparr>useFsAccessApi := True\<rparr>)) \<and>
   \<not> fsAccessApiWorks (step exUtils defaultProps (PickerSettles (Failed exSecurityError))
        (initialState exUtils (defaultProps\<lparr>useFsAccessApi := True\<rparr>))) \<and>
   effects (step exUtils defaultProps (PickerSettles (Failed exSecurityError))
        (initialState exUtils (defaultProps\<lparr>useFsAccessApi := True\<rparr>)))
     = [ConsoleError noInputError, CallOnError noInputError] \<and>
   \<not> fsAccessApiWorks (run exUtils [(defaultProps, Open), (defaultProps, PickerSettles (Picked []))]
        (step exUtils defaultProps (PickerSettles (Failed exSecurityError))
           (initialState exUtils (defaultProps\<lparr>useFsAccessApi := True\<rparr>)))) \<and>
   downgrades exUtils [(defaultProps, Open), (defaultProps, PickerSettles (Failed exSecurityError)),
        (defaultProps, Open), (defaultProps, PickerSettles (Failed exSecurityError))]
        (initialState exUtils (defaultProps\<lparr>useFsAccessApi := True\<rparr>)) \<le> 1"
proof -
  let ?s0 = "initialState exUtils (defaultProps\<lparr>useFsAccessApi := True\<rparr>)"
  let ?s1 = "step exUtils defaultProps (PickerSettles (Failed exSecurityError)) ?s0"
  have on: "fsAccessApiWorks ?s0"
    by (simp add: initialState_def exUtils_def)
  have cls: "\<not> isAbort exSecurityError \<and> isSecurityError exSecurityError"
    by (simp add: exSecurityError_def)
  have inp: "inputRef ?s0 = None" and eff: "effects ?s0 = []"
    by (simp_all add: initialState_def)
  have ce: "onError defaultProps" by (simp add: defaultProps_def)
  note T0 = fsAccessApiWorks_downgraded_once [where u = exUtils and p = defaultProps
              and s = ?s0 and a = "PickerSettles (Failed exSecurityError)"]
  have off: "\<not> fsAccessApiWorks ?s1" using T0 on cls by blast
  have fx: "effects ?s1 = [ConsoleError noInputError, CallOnError noInputError]"
    using T0 [THEN conjunct2, THEN conjunct2, THEN conjunct2, THEN conjunct2, rule_format,
              of exSecurityError] cls
    by (simp add: inp eff ce)
  have stay: "\<not> fsAccessApiWorks
                (run exUtils [(defaultProps, Open), (defaultProps, PickerSettles (Picked []))] ?s1)"
    using fsAccessApiWorks_downgraded_once [where u = exUtils and s = ?s1
            and as = "[(defaultProps, Open), (defaultProps, PickerSettles (Picked []))]"] off
    by blast
  have cnt: "downgrades exUtils [(defaultProps, Open),
               (defaultProps, PickerSettles (Failed exSecurityError)),
               (defaultProps, Open), (defaultProps, PickerSettles (Failed exSecurityError))] ?s0 \<le> 1"
    using fsAccessApiWorks_downgraded_once [where u = exUtils and s = ?s0
            and as = "[(defaultProps, Open), (defaultProps, PickerSettles (Failed exSecurityError)),
               (defaultProps, Open), (defaultProps, PickerSettles (Failed exSecurityError))]"]
    by blast
  show ?thesis using on off fx stay cnt by blast
qed

section \<open>Cancellation detection on the proxy-input path\<close>

lemma cancelCheck_cases:
  "inputRef t = Some [] \<Longrightarrow>
     cancelCheck p t = emit (if onFileDialogCancel p then [CallOnFileDialogCancel] else [])
                         (t\<lparr>isFileDialogActive := False\<rparr>)"
  "inputRef t \<noteq> Some [] \<Longrightarrow> cancelCheck p t = t"
  by (auto simp add: cancelCheck_def split: option.splits)

text \<open>
  C8, as the code has it. A window-focus event, with the modern picker not in use and the
  dialog marked active, schedules one check 300ms later and does nothing else; any other
  window-focus event does nothing. When a
  scheduled check runs: if an input is bound and holds no files, the dialog-active flag
  becomes false and \<open>onFileDialogCancel\<close> is invoked (when the caller supplied it),
  whether or not the dialog is still marked active; if no input is bound or the input
  holds files, the flag and the effects stay as they are.
\<close>

theorem windowFocus_cancel_check:
  "(\<not> fsAccessApiWorks s \<and> isFileDialogActive s \<longrightarrow>
      step u p WindowFocus s = s\<lparr>timers := timers s @ [(300, CancelCheck)]\<rparr>) \<and>
   (fsAccessApiWorks s \<or> \<not> isFileDialogActive s \<longrightarrow> step u p WindowFocus s = s) \<and>
   (k < length (timers t) \<and> snd (timers t ! k) = CancelCheck \<and> inputRef t = Some [] \<longrightarrow>
      \<not> isFileDialogActive (step u p (TimerFires k) t) \<and>
      effects (step u p (TimerFires k) t) =
        effects t @ (if onFileDialogCancel p then [CallOnFileDialogCancel] else [])) \<and>
   (k < length (timers t) \<and> snd (timers t ! k) = CancelCheck \<and> inputRef t \<noteq> Some [] \<longrightarrow>
      isFileDialogActive (step u p (TimerFires k) t) = isFileDialogActive t \<and>
      effects (step u p (TimerFires k) t) = effects t)"
  by (simp add: step_def onWindowFocus_def runTask_def cancelCheck_cases emit_def)

theorem windowFocus_cancel_check_witness:
  "step exUtils defaultProps WindowFocus
     ((initialState exUtils defaultProps)\<lparr>isFileDialogActive := True, inputRef := Some []\<rparr>)
     = (initialState exUtils defaultProps)
         \<lparr>isFileDialogActive := True, inputRef := Some [], timers := [(300, CancelCheck)]\<rparr> \<and>
   \<not> isFileDialogActive (step exUtils defaultProps (TimerFires 0)
       ((initialState exUtils defaultProps)
         \<lparr>isFileDialogActive := True, inputRef := Some [], timers := [(300, CancelCheck)]\<rparr>)) \<and>
   effects (step exUtils defaultProps (TimerFires 0)
       ((initialState exUtils defaultProps)
         \<lparr>isFileDialogActive := True, inputRef := Some [], timers := [(300, CancelCheck)]\<rparr>))
     = [CallOnFileDialogCancel] \<and>
   effects (step exUtils defaultProps (TimerFires 0)
       ((initialState exUtils defaultProps)
         \<lparr>isFileDialogActive := True, inputRef := Some [exFile1],
           timers := [(300, CancelCheck)]\<rparr>)) = []"
  using windowFocus_cancel_check [where u = exUtils and p = defaultProps and k = 0
          and s = "(initialState exUtils defaultProps)
                     \<lparr>isFileDialogActive := True, inputRef := Some []\<rparr>"
          and t = "(initialState exUtils defaultProps)
                     \<lparr>isFileDialogActive := True, inputRef := Some [],
                       timers := [(300, CancelCheck)]\<rparr>"]
        windowFocus_cancel_check [where u = exUtils and p = defaultProps and k = 0
          and s = "initialState exUtils defaultProps"
          and t = "(initialState exUtils defaultProps)
                     \<lparr>isFileDialogActive := True, inputRef := Some [exFile1],
                       timers := [(300, CancelCheck)]\<rparr>"]
  by (simp add: initialState_def defaultProps_def)

text \<open>
  The claim as it is written fails. After \<open>exCancelRun\<close> the first check has closed the
  dialog, the input still holds no files and the second check is still pending. When it
  runs the dialog is no longer marked active, and \<open>onFileDialogCancel\<close> is invoked again.
\<close>

theorem cancel_check_ignores_dialog_state:
  "\<not> isFileDialogActive (run exUtils exCancelRun (initialState exUtils defaultProps)) \<and>
   inputRef (run exUtils exCancelRun (initialState exUtils defaultProps)) = Some [] \<and>
   timers (run exUtils exCancelRun (initialState exUtils defaultProps)) = [(300, CancelCheck)] \<and>
   effects (step exUtils defaultProps (TimerFires 0)
              (run exUtils exCancelRun (initialState exUtils defaultProps)))
     = effects (run exUtils exCancelRun (initialState exUtils defaultProps)) @
       [CallOnFileDialogCancel]"
  by (simp add: exCancelRun_def step_def openDialog_def openFileDialog_def onWindowFocus_def
        runTask_def cancelCheck_def emit_def initialState_def defaultProps_def Let_def)

section \<open>The result object\<close>

lemma resIsFileDialogActive_constant:
  "resIsFileDialogActive (snd (useDropzone u p)) = False"
  by (simp add: useDropzone_def initialState_def Let_def)

text \<open>
  C9. The field \<open>isFileDialogActive\<close> of the result object is the value the signal had
  when the object was built. After an input is bound and \<open>open()\<close> is called the signal
  is true, and the field is still false.
\<close>

theorem isFileDialogActive_is_a_snapshot:
  "isFileDialogActive
     (resOpen (snd (useDropzone exUtils defaultProps)) defaultProps
        (step exUtils defaultProps (BindInput []) (fst (useDropzone exUtils defaultProps)))) \<and>
   \<not> resIsFileDialogActive (snd (useDropzone exUtils defaultProps))"
  by (simp add: useDropzone_def step_def openDialog_def openFileDialog_def emit_def
        initialState_def defaultProps_def Let_def)

lemma step_isFocused:
  "isFocused (step u p a s) =
     (case a of Focus ev \<Rightarrow> \<not> cancelBubble ev \<or> isFocused s
              | Blur ev \<Rightarrow> cancelBubble ev \<and> isFocused s
              | _ \<Rightarrow> isFocused s)"
proof (cases a)
  case (TimerFires k)
  then show ?thesis
    by (cases "snd (timers s ! k)")
       (simp_all add: step_def runTask_def cancelCheck_def openFileDialog_frame emit_def
          split: option.splits)
next
  case (PickerSettles outcome)
  then show ?thesis
    by (cases outcome)
       (auto simp add: step_def openFileDialogThen_def setFiles_frame emit_def Let_def
          split: option.splits)
next
  case (DragLeave ev)
  then show ?thesis by (simp add: step_def onDragLeaveCb_def Let_def emit_def)
qed (simp_all add: step_def onDragEnterCb_def onDragEnterThen_def onDragOverCb_def
       onDropCb_def onDropThen_def onDocumentDrop_def onKeyDownCb_def onFocusCb_def onBlurCb_def
       onClickCb_def openDialog_def onWindowFocus_def
       setFiles_frame openFileDialog_frame emit_def Let_def
       split: sum.splits option.splits)

lemma run_isFocused:
  "isFocused (run u as s) \<Longrightarrow> isFocused s \<or> focusSeen as"
proof (induction as arbitrary: s)
  case Nil
  then show ?case by simp
next
  case (Cons pa as)
  obtain q a where pa: "pa = (q, a)" by (cases pa)
  have "isFocused (step u q a s) \<or> focusSeen as"
    using Cons.IH [of "step u q a s"] Cons.prems by (simp add: pa)
  then show ?case
    unfolding pa by (cases a) (auto simp add: step_isFocused)
qed

text \<open>
  C10. The accessor \<open>isFocused\<close> of the result object returns the focus signal of the
  current state conjoined with \<open>disabled\<close> being false. So it is false whenever
  \<open>disabled\<close> is true, whatever events the instance has handled; and when it is true
  after a run from the initial state, \<open>disabled\<close> is false and the run holds a focus event
  whose propagation was not stopped. Such a focus event sets the signal, a blur event
  whose propagation was not stopped clears it.
\<close>

theorem isFocused_accessor:
  "resIsFocused (snd (useDropzone u pc)) p s = (isFocused s \<and> \<not> disabled p) \<and>
   (disabled p \<longrightarrow>
      \<not> resIsFocused (snd (useDropzone u pc)) p (run u as (fst (useDropzone u pc)))) \<and>
   (resIsFocused (snd (useDropzone u pc)) p (run u as (fst (useDropzone u pc))) \<longrightarrow>
      \<not> disabled p \<and> focusSeen as) \<and>
   (\<not> cancelBubble ev \<longrightarrow> isFocused (step u p (Focus ev) s) \<and> \<not> isFocused (step u p (Blur ev) s))"
proof -
  have acc: "resIsFocused (snd (useDropzone u pc)) p t = (isFocused t \<and> \<not> disabled p)" for t
    by (simp add: useDropzone_def Let_def)
  have init: "\<not> isFocused (fst (useDropzone u pc))"
    by (simp add: useDropzone_def initialState_def Let_def)
  have seen: "isFocused (run u as (fst (useDropzone u pc))) \<longrightarrow> focusSeen as"
    using run_isFocused [of u as "fst (useDropzone u pc)"] init by blast
  show ?thesis using seen by (simp add: acc step_isFocused)
qed

theorem isFocused_accessor_witness:
  "resIsFocused (snd (useDropzone exUtils defaultProps)) defaultProps
     (run exUtils [(defaultProps, Focus exEvent)] (fst (useDropzone exUtils defaultProps))) \<and>
   \<not> resIsFocused (snd (useDropzone exUtils defaultProps)) (defaultProps\<lparr>disabled := True\<rparr>)
     (run exUtils [(defaultProps, Focus exEvent)] (fst (useDropzone exUtils defaultProps))) \<and>
   focusSeen [(defaultProps, Focus exEvent)]"
proof -
  let ?r = "snd (useDropzone exUtils defaultProps)"
  let ?s0 = "fst (useDropzone exUtils defaultProps)"
  have nb: "\<not> cancelBubble exEvent" by (simp add: exEvent_def)
  have en: "\<not> disabled defaultProps" by (simp add: defaultProps_def)
  have f: "isFocused (step exUtils defaultProps (Focus exEvent) ?s0)"
    using isFocused_accessor [where u = exUtils and p = defaultProps and ev = exEvent
            and s = ?s0] nb by blast
  have a: "resIsFocused ?r defaultProps (run exUtils [(defaultProps, Focus exEvent)] ?s0)"
    using isFocused_accessor [where u = exUtils and pc = defaultProps and p = defaultProps
            and s = "run exUtils [(defaultProps, Focus exEvent)] ?s0"] f en
    by simp
  have b: "\<not> resIsFocused ?r (defaultProps\<lparr>disabled := True\<rparr>)
              (run exUtils [(defaultProps, Focus exEvent)] ?s0)"
    using isFocused_accessor [where u = exUtils and pc = defaultProps
            and p = "defaultProps\<lparr>disabled := True\<rparr>"
            and as = "[(defaultProps, Focus exEvent)]"]
    by simp
  have c: "focusSeen [(defaultProps, Focus exEvent)]"
    using isFocused_accessor [where u = exUtils and pc = defaultProps and p = defaultProps
            and as = "[(defaultProps, Focus exEvent)]"] a
    by blast
  show ?thesis using a b c by blast
qed

end
